theory Spec2Isabelle
  imports Complex_Main
begin

section \<open>Python values used by the clustering module\<close>

text \<open>
  The development embeds \<^verbatim>\<open>src/python/algorithms/clustering.py\<close>: the class
  \<^verbatim>\<open>CorrelationClustering\<close> (mistake counting, the two local searches, validation)
  and the class \<^verbatim>\<open>CorrelationClusteringLP\<close> (LP formulation, rounding).
  Vertex identifiers, cluster labels and counters are Python integers, modelled as
  \<open>int\<close>. Exceptions are values of type \<open>error\<close>; a function that can raise returns
  \<open>error + 'a\<close> with \<open>Inl\<close> for the exception.
\<close>

datatype error = ValueError | IndexError

subsection \<open>Strings: \<^verbatim>\<open>str\<close>, \<^verbatim>\<open>split\<close>, \<^verbatim>\<open>int\<close>\<close>

text \<open>
  Edges are stored as strings built with f-strings and read back with
  \<^verbatim>\<open>map(int, edge_key.split('-'))\<close>, so the decimal rendering of an integer, the
  splitting of a string at a separator and the parsing of a decimal string are part of
  the program. \<open>str_int\<close> is Python's \<^verbatim>\<open>str\<close> on integers (a minus sign, then the
  decimal digits without leading zeros). CPython's configurable limit on the number of
  digits of such a conversion is not modelled.
\<close>

definition digit_char :: "nat \<Rightarrow> char" where
  "digit_char d = char_of (48 + d)"

fun str_nat :: "nat \<Rightarrow> string" where
  "str_nat n = (if n < 10 then [digit_char n] else str_nat (n div 10) @ [digit_char (n mod 10)])"

declare str_nat.simps [simp del]

definition str_int :: "int \<Rightarrow> string" where
  "str_int n = (if n < 0 then CHR ''-'' # str_nat (nat (- n)) else str_nat (nat n))"

text \<open>
  \<^verbatim>\<open>s.split(sep)\<close> for a one-character separator: the pieces between the
  occurrences of \<open>sep\<close>, empty pieces included; \<open>cur\<close> is the piece being read.
\<close>

fun split_from :: "char \<Rightarrow> string \<Rightarrow> string \<Rightarrow> string list" where
  "split_from sep cur [] = [cur]"
| "split_from sep cur (c # cs) =
     (if c = sep then cur # split_from sep [] cs else split_from sep (cur @ [c]) cs)"

definition str_split :: "string \<Rightarrow> char \<Rightarrow> string list" where
  "str_split s sep = split_from sep [] s"

text \<open>
  \<^verbatim>\<open>int(s)\<close> on the strings that reach it here. They are pieces of an edge key cut
  at \<^verbatim>\<open>'-'\<close>, so they hold decimal digits only, or are empty; on a non-empty digit
  string \<^verbatim>\<open>int\<close> returns its value, on the empty string it raises \<^verbatim>\<open>ValueError\<close>.
\<close>

definition is_digit :: "char \<Rightarrow> bool" where
  "is_digit c = (48 \<le> (of_char c :: nat) \<and> (of_char c :: nat) \<le> 57)"

definition digit_value :: "char \<Rightarrow> nat" where
  "digit_value c = of_char c - 48"

definition py_int :: "string \<Rightarrow> error + int" where
  "py_int s =
     (if s \<noteq> [] \<and> list_all is_digit s
      then Inr (int (foldl (\<lambda>a c. 10 * a + digit_value c) 0 s))
      else Inl ValueError)"

subsection \<open>Dictionaries\<close>

text \<open>
  A \<^verbatim>\<open>dict\<close> keeps its keys in insertion order, and the searches iterate over
  \<^verbatim>\<open>items()\<close> and \<^verbatim>\<open>values()\<close>, so a dictionary is an association list with
  distinct keys. \<open>dict_set\<close> is \<^verbatim>\<open>d[k] = v\<close>: it overwrites the value in place when
  the key is present and appends the entry otherwise.
\<close>

type_synonym ('k, 'v) dict = "('k \<times> 'v) list"

definition dict_get :: "('k, 'v) dict \<Rightarrow> 'k \<Rightarrow> 'v option" where
  "dict_get d k = map_of d k"

fun dict_set :: "('k, 'v) dict \<Rightarrow> 'k \<Rightarrow> 'v \<Rightarrow> ('k, 'v) dict" where
  "dict_set [] k v = [(k, v)]"
| "dict_set ((k', v') # d) k v =
     (if k' = k then (k, v) # d else (k', v') # dict_set d k v)"

definition dict_keys :: "('k, 'v) dict \<Rightarrow> 'k list" where
  "dict_keys d = map fst d"

definition dict_values :: "('k, 'v) dict \<Rightarrow> 'v list" where
  "dict_values d = map snd d"

section \<open>The signed graph and the mistake count\<close>

text \<open>
  \<^verbatim>\<open>CorrelationClustering.__init__\<close> keeps the vertex list as given and turns each
  edge list into a \<^verbatim>\<open>set\<close> of canonical keys \<^verbatim>\<open>f"{min(u, v)}-{max(u, v)}"\<close>.
  A set of strings is modelled by a duplicate-free list. The order in which Python
  iterates over the set is not fixed by the language; \<open>calculate_mistakes\<close> only counts
  over it and every exception it can raise is a \<^verbatim>\<open>ValueError\<close>, so its result does
  not depend on that order.
\<close>

record graph =
  vertices :: "int list"
  positive_edges :: "string list"
  negative_edges :: "string list"

definition edge_key :: "int \<Rightarrow> int \<Rightarrow> string" where
  "edge_key u v = str_int (min u v) @ ''-'' @ str_int (max u v)"

definition CorrelationClustering ::
  "int list \<Rightarrow> (int \<times> int) list \<Rightarrow> (int \<times> int) list \<Rightarrow> graph" where
  "CorrelationClustering vs pos neg =
     \<lparr>vertices = vs,
      positive_edges = remdups (map (\<lambda>(u, v). edge_key u v) pos),
      negative_edges = remdups (map (\<lambda>(u, v). edge_key u v) neg)\<rparr>"

text \<open>
  \<^verbatim>\<open>u, v = map(int, edge_key.split('-'))\<close>: the unpacking needs exactly two pieces
  and each must parse; a failed \<^verbatim>\<open>int\<close> and a wrong number of pieces both raise
  \<^verbatim>\<open>ValueError\<close>.
\<close>

definition parse_edge :: "string \<Rightarrow> error + int \<times> int" where
  "parse_edge k =
     (case map py_int (str_split k CHR ''-'') of
        [Inr u, Inr v] \<Rightarrow> Inr (u, v)
      | _ \<Rightarrow> Inl ValueError)"

text \<open>
  The two loops of \<^verbatim>\<open>calculate_mistakes\<close>. \<^verbatim>\<open>clustering.get(u)\<close> is \<open>None\<close> for a
  vertex without an entry, and Python compares \<open>None\<close> equal to \<open>None\<close> and different
  from every integer, which is equality on \<open>int option\<close>.
\<close>

fun count_positive :: "(int, int) dict \<Rightarrow> string list \<Rightarrow> int \<Rightarrow> error + int" where
  "count_positive clustering [] mistakes = Inr mistakes"
| "count_positive clustering (k # ks) mistakes =
     (case parse_edge k of
        Inl e \<Rightarrow> Inl e
      | Inr (u, v) \<Rightarrow>
          count_positive clustering ks
            (if dict_get clustering u \<noteq> dict_get clustering v then mistakes + 1 else mistakes))"

fun count_negative :: "(int, int) dict \<Rightarrow> string list \<Rightarrow> int \<Rightarrow> error + int" where
  "count_negative clustering [] mistakes = Inr mistakes"
| "count_negative clustering (k # ks) mistakes =
     (case parse_edge k of
        Inl e \<Rightarrow> Inl e
      | Inr (u, v) \<Rightarrow>
          count_negative clustering ks
            (if dict_get clustering u = dict_get clustering v then mistakes + 1 else mistakes))"

definition calculate_mistakes :: "graph \<Rightarrow> (int, int) dict \<Rightarrow> error + int" where
  "calculate_mistakes G clustering =
     (case count_positive clustering (positive_edges G) 0 of
        Inl e \<Rightarrow> Inl e
      | Inr mistakes \<Rightarrow> count_negative clustering (negative_edges G) mistakes)"

section \<open>Local search\<close>

text \<open>The dataclass \<^verbatim>\<open>Clustering\<close> returned by both searches.\<close>

record Clustering =
  clustering :: "(int, int) dict"
  mistakes :: int
  cluster_count :: int

text \<open>\<^verbatim>\<open>_get_cluster_count\<close>: \<^verbatim>\<open>len(set(clustering.values()))\<close>.\<close>

definition get_cluster_count :: "(int, int) dict \<Rightarrow> int" where
  "get_cluster_count c = int (length (remdups (dict_values c)))"

text \<open>The initial partition \<^verbatim>\<open>{vertex: vertex for vertex in self.vertices}\<close>.\<close>

definition singleton_clustering :: "int list \<Rightarrow> (int, int) dict" where
  "singleton_clustering vs = foldl (\<lambda>d vertex. dict_set d vertex vertex) [] vs"

text \<open>
  The candidate of both searches: a copy of the current clustering in which every
  vertex labelled \<open>cluster_a\<close> is moved to \<open>cluster_b\<close> (the loop over
  \<^verbatim>\<open>test_clustering.items()\<close>, which overwrites values and adds no key).
\<close>

definition relabel :: "(int, int) dict \<Rightarrow> int \<Rightarrow> int \<Rightarrow> (int, int) dict" where
  "relabel c cluster_a cluster_b =
     map (\<lambda>(vertex, cluster). (vertex, if cluster = cluster_a then cluster_b else cluster)) c"

text \<open>
  A \<^verbatim>\<open>for\<close> loop whose body can raise: the body is run on each element in turn and
  the first exception ends the loop.
\<close>

fun for_each :: "('a \<Rightarrow> 's \<Rightarrow> error + 's) \<Rightarrow> 'a list \<Rightarrow> 's \<Rightarrow> error + 's" where
  "for_each body [] s = Inr s"
| "for_each body (x # xs) s =
     (case body x s of Inl e \<Rightarrow> Inl e | Inr s' \<Rightarrow> for_each body xs s')"

subsection \<open>The cluster-merge search\<close>

text \<open>
  The local variables of \<^verbatim>\<open>greedy_correlation_clustering\<close>. The field \<open>g_accepted\<close>
  is not a variable of the program: it is a history of the values given to
  \<^verbatim>\<open>min_mistakes\<close>, in the order in which they were assigned, starting with the
  count of the initial partition.
\<close>

record gstate =
  g_clustering :: "(int, int) dict"
  g_best_clustering :: "(int, int) dict"
  g_min_mistakes :: int
  g_improved :: bool
  g_iterations :: nat
  g_accepted :: "int list"

text \<open>The body of the inner loop for one pair of labels (lines 101 to 118).\<close>

definition try_merge :: "graph \<Rightarrow> int \<Rightarrow> int \<Rightarrow> gstate \<Rightarrow> error + gstate" where
  "try_merge G cluster_a cluster_b s =
     (let test_clustering = relabel (g_clustering s) cluster_a cluster_b in
      case calculate_mistakes G test_clustering of
        Inl e \<Rightarrow> Inl e
      | Inr test_mistakes \<Rightarrow>
          if test_mistakes < g_min_mistakes s
          then Inr (s\<lparr>g_min_mistakes := test_mistakes,
                      g_best_clustering := test_clustering,
                      g_clustering := test_clustering,
                      g_improved := True,
                      g_accepted := g_accepted s @ [test_mistakes]\<rparr>)
          else Inr s)"

text \<open>
  One round of the \<^verbatim>\<open>while\<close> loop. \<^verbatim>\<open>list(set(clustering.values()))\<close> lists the
  distinct labels in an order the language does not fix; the order is the parameter
  \<open>set_order\<close>, which maps the list of values to the list Python builds from their set.
  The list is computed once per round and not refreshed after a merge.
\<close>

definition greedy_round :: "(int list \<Rightarrow> int list) \<Rightarrow> graph \<Rightarrow> gstate \<Rightarrow> error + gstate" where
  "greedy_round set_order G s =
     (let s1 = s\<lparr>g_improved := False, g_iterations := g_iterations s + 1\<rparr>;
          current_clusters = set_order (dict_values (g_clustering s1));
          n = length current_clusters
      in for_each
           (\<lambda>i. for_each
                  (\<lambda>j. try_merge G (current_clusters ! i) (current_clusters ! j))
                  [i + 1 ..< n])
           [0 ..< n] s1)"

text \<open>
  Two facts about loops: a property kept by every run of the body holds after the
  loop, and a loop whose body never raises on states with the property does not raise.
\<close>

lemma for_each_invariant:
  assumes "for_each body xs s = Inr s'" and "P s"
    and "\<And>x t t'. x \<in> set xs \<Longrightarrow> P t \<Longrightarrow> body x t = Inr t' \<Longrightarrow> P t'"
  shows "P s'"
  using assms
proof (induction xs arbitrary: s)
  case Nil
  then show ?case by simp
next
  case (Cons x xs)
  from Cons.prems(1) obtain t where t: "body x s = Inr t" and rest: "for_each body xs t = Inr s'"
    by (auto split: sum.splits)
  have "P t" using Cons.prems(3) [OF _ Cons.prems(2) t] by simp
  show ?case
  proof (rule Cons.IH [OF rest \<open>P t\<close>])
    fix y u u' assume "y \<in> set xs" "P u" "body y u = Inr u'"
    then show "P u'" using Cons.prems(3) [of y u u'] by simp
  qed
qed

lemma for_each_total:
  assumes "P s"
    and "\<And>x t. x \<in> set xs \<Longrightarrow> P t \<Longrightarrow> \<exists>t'. body x t = Inr t' \<and> P t'"
  shows "\<exists>s'. for_each body xs s = Inr s' \<and> P s'"
  using assms
proof (induction xs arbitrary: s)
  case Nil
  then show ?case by simp
next
  case (Cons x xs)
  from Cons.prems obtain t where t: "body x s = Inr t" "P t"
    by (meson list.set_intros(1))
  then show ?case using Cons.IH [of t] Cons.prems(2) by simp
qed

lemma try_merge_iterations:
  "try_merge G a b s = Inr s' \<Longrightarrow> g_iterations s' = g_iterations s"
  by (auto simp: try_merge_def Let_def split: sum.splits if_splits)

lemma greedy_round_iterations:
  assumes "greedy_round so G s = Inr s'"
  shows "g_iterations s' = g_iterations s + 1"
proof -
  define n where "n = g_iterations s + 1"
  let ?P = "\<lambda>t. g_iterations t = n"
  have inner: "?P t'" if "?P t" "for_each (\<lambda>j. try_merge G a (f j)) js t = Inr t'"
    for a f js t t'
    using that(2,1) by (rule for_each_invariant) (simp add: try_merge_iterations)
  have "?P s'"
    using assms unfolding greedy_round_def Let_def
  proof (rule for_each_invariant)
    show "g_iterations (s\<lparr>g_improved := False, g_iterations := g_iterations s + 1\<rparr>) = n"
      by (simp add: n_def)
  qed (rule inner)
  then show ?thesis by (simp add: n_def)
qed

text \<open>
  The \<^verbatim>\<open>while improved and iterations < max_iterations\<close> loop. Every round adds
  one to \<^verbatim>\<open>iterations\<close>, so the distance to the cap decreases.
\<close>

function greedy_loop ::
  "(int list \<Rightarrow> int list) \<Rightarrow> graph \<Rightarrow> nat \<Rightarrow> gstate \<Rightarrow> error + gstate" where
  "greedy_loop set_order G max_iterations s =
     (if g_improved s \<and> g_iterations s < max_iterations
      then (case greedy_round set_order G s of
              Inl e \<Rightarrow> Inl e
            | Inr s' \<Rightarrow> greedy_loop set_order G max_iterations s')
      else Inr s)"
  by pat_completeness auto
termination
  by (relation "measure (\<lambda>(set_order, G, max_iterations, s). max_iterations - g_iterations s)")
    (auto dest: greedy_round_iterations)

text \<open>
  The function up to the end of its loop, returning the final local variables, and
  the function itself, which packs three of them into a \<^verbatim>\<open>Clustering\<close>.
\<close>

definition greedy_run :: "(int list \<Rightarrow> int list) \<Rightarrow> graph \<Rightarrow> error + gstate" where
  "greedy_run set_order G =
     (let clustering = singleton_clustering (vertices G) in
      case calculate_mistakes G clustering of
        Inl e \<Rightarrow> Inl e
      | Inr min_mistakes \<Rightarrow>
          greedy_loop set_order G (length (vertices G) * length (vertices G))
            \<lparr>g_clustering = clustering,
             g_best_clustering = clustering,
             g_min_mistakes = min_mistakes,
             g_improved = True,
             g_iterations = 0,
             g_accepted = [min_mistakes]\<rparr>)"

definition greedy_correlation_clustering ::
  "(int list \<Rightarrow> int list) \<Rightarrow> graph \<Rightarrow> error + Clustering" where
  "greedy_correlation_clustering set_order G =
     (case greedy_run set_order G of
        Inl e \<Rightarrow> Inl e
      | Inr s \<Rightarrow>
          Inr \<lparr>clustering = g_best_clustering s,
               mistakes = g_min_mistakes s,
               cluster_count = get_cluster_count (g_best_clustering s)\<rparr>)"

subsection \<open>The vertex-pair-merge search\<close>

text \<open>
  The local variables of \<^verbatim>\<open>simple_greedy_clustering\<close>. Two fields are not
  variables of the program: \<open>s_accepted\<close> is the history of the values given to
  \<^verbatim>\<open>min_mistakes\<close>, and \<open>s_passes\<close> counts the executions of the body of the
  \<^verbatim>\<open>while changed\<close> loop.
\<close>

record sstate =
  s_clustering :: "(int, int) dict"
  s_best_clustering :: "(int, int) dict"
  s_min_mistakes :: int
  s_changed :: bool
  s_passes :: nat
  s_accepted :: "int list"

text \<open>The candidate evaluation of lines 151 to 165, for the two labels found.\<close>

definition simple_try :: "graph \<Rightarrow> int \<Rightarrow> int \<Rightarrow> sstate \<Rightarrow> error + sstate" where
  "simple_try G u_cluster v_cluster s =
     (let test_clustering = relabel (s_clustering s) u_cluster v_cluster in
      case calculate_mistakes G test_clustering of
        Inl e \<Rightarrow> Inl e
      | Inr test_mistakes \<Rightarrow>
          if test_mistakes < s_min_mistakes s
          then Inr (s\<lparr>s_min_mistakes := test_mistakes,
                      s_best_clustering := test_clustering,
                      s_clustering := test_clustering,
                      s_changed := True,
                      s_accepted := s_accepted s @ [test_mistakes]\<rparr>)
          else Inr s)"

text \<open>
  The body of the inner loop for one pair of vertices. \<^verbatim>\<open>clustering.get\<close> returns
  an optional label. Both lookups succeed in every state the search reaches, because
  the keys of the clustering are the vertices throughout (lemma \<open>simple_step_lookup\<close>
  below); the last branch is therefore never taken and leaves the state as it is.
\<close>

definition simple_step :: "graph \<Rightarrow> int \<Rightarrow> int \<Rightarrow> sstate \<Rightarrow> error + sstate" where
  "simple_step G u v s =
     (if u = v then Inr s
      else
        let u_cluster = dict_get (s_clustering s) u;
            v_cluster = dict_get (s_clustering s) v
        in if u_cluster = v_cluster then Inr s
           else (case (u_cluster, v_cluster) of
                   (Some a, Some b) \<Rightarrow> simple_try G a b s
                 | _ \<Rightarrow> Inr s))"

text \<open>One execution of the body of \<^verbatim>\<open>while changed\<close>: the double pass over the vertices.\<close>

definition simple_pass :: "graph \<Rightarrow> sstate \<Rightarrow> error + sstate" where
  "simple_pass G s =
     for_each (\<lambda>u. for_each (\<lambda>v. simple_step G u v) (vertices G)) (vertices G)
       (s\<lparr>s_changed := False, s_passes := s_passes s + 1\<rparr>)"

text \<open>The counters only grow, so a mistake count is never negative.\<close>

lemma count_positive_mono: "count_positive c ks m = Inr m' \<Longrightarrow> m \<le> m'"
proof (induction ks arbitrary: m)
  case Nil
  then show ?case by simp
next
  case (Cons k ks)
  from Cons.prems obtain u v where
    "count_positive c ks (if dict_get c u \<noteq> dict_get c v then m + 1 else m) = Inr m'"
    by (auto split: sum.splits)
  from Cons.IH [OF this] show ?case by (simp split: if_splits)
qed

lemma count_negative_mono: "count_negative c ks m = Inr m' \<Longrightarrow> m \<le> m'"
proof (induction ks arbitrary: m)
  case Nil
  then show ?case by simp
next
  case (Cons k ks)
  from Cons.prems obtain u v where
    "count_negative c ks (if dict_get c u = dict_get c v then m + 1 else m) = Inr m'"
    by (auto split: sum.splits)
  from Cons.IH [OF this] show ?case by (simp split: if_splits)
qed

lemma calculate_mistakes_nonneg: "calculate_mistakes G c = Inr m \<Longrightarrow> 0 \<le> m"
  unfolding calculate_mistakes_def
  by (auto split: sum.splits dest!: count_positive_mono count_negative_mono)

text \<open>What one candidate evaluation does to the tracked minimum and the flag.\<close>

lemma simple_try_cases:
  assumes "simple_try G a b s = Inr s'"
  shows "s' = s \<or>
    (s_changed s' \<and> 0 \<le> s_min_mistakes s' \<and> s_min_mistakes s' < s_min_mistakes s
      \<and> s_accepted s' = s_accepted s @ [s_min_mistakes s'] \<and> s_passes s' = s_passes s
      \<and> calculate_mistakes G (s_clustering s') = Inr (s_min_mistakes s')
      \<and> s_best_clustering s' = s_clustering s'
      \<and> s_clustering s' = relabel (s_clustering s) a b)"
  using assms
  by (auto simp: simple_try_def Let_def split: sum.splits if_splits
      dest: calculate_mistakes_nonneg)

lemma simple_step_cases:
  assumes "simple_step G u v s = Inr s'"
  shows "s' = s \<or>
    (s_changed s' \<and> 0 \<le> s_min_mistakes s' \<and> s_min_mistakes s' < s_min_mistakes s
      \<and> s_accepted s' = s_accepted s @ [s_min_mistakes s'] \<and> s_passes s' = s_passes s
      \<and> calculate_mistakes G (s_clustering s') = Inr (s_min_mistakes s')
      \<and> s_best_clustering s' = s_clustering s'
      \<and> (\<exists>a b. s_clustering s' = relabel (s_clustering s) a b))"
  using assms
  by (auto simp: simple_step_def Let_def split: if_splits option.splits
      dest!: simple_try_cases)

lemma simple_pass_cases:
  assumes "simple_pass G s = Inr s'"
  shows "(s_changed s' \<and> 0 \<le> s_min_mistakes s' \<and> s_min_mistakes s' < s_min_mistakes s) \<or>
         (\<not> s_changed s' \<and> s_min_mistakes s' = s_min_mistakes s)"
proof -
  define m where "m = s_min_mistakes s"
  let ?P = "\<lambda>t. (s_changed t \<and> 0 \<le> s_min_mistakes t \<and> s_min_mistakes t < m) \<or>
                  (\<not> s_changed t \<and> s_min_mistakes t = m)"
  have step: "?P t'" if "?P t" "simple_step G u v t = Inr t'" for u v t t'
    using simple_step_cases [OF that(2)] that(1) by auto
  have inner: "?P t'" if "?P t" "for_each (\<lambda>v. simple_step G u v) vs t = Inr t'" for u vs t t'
    using that(2,1) by (rule for_each_invariant) (rule step)
  have "?P s'"
    using assms unfolding simple_pass_def
  proof (rule for_each_invariant)
    show "?P (s\<lparr>s_changed := False, s_passes := s_passes s + 1\<rparr>)" by (simp add: m_def)
  qed (rule inner)
  then show ?thesis by (simp add: m_def)
qed

text \<open>
  The \<^verbatim>\<open>while changed\<close> loop has no cap. It terminates because a pass that sets
  the flag lowers \<^verbatim>\<open>min_mistakes\<close>, which stays non-negative, and a pass that does
  not set it is the last one.
\<close>

function simple_loop :: "graph \<Rightarrow> sstate \<Rightarrow> error + sstate" where
  "simple_loop G s =
     (if s_changed s
      then (case simple_pass G s of
              Inl e \<Rightarrow> Inl e
            | Inr s' \<Rightarrow> simple_loop G s')
      else Inr s)"
  by pat_completeness auto
termination
proof (relation "measure (\<lambda>(G, s). 2 * nat (s_min_mistakes s) + (if s_changed s then 1 else 0))")
  show "wf (measure (\<lambda>(G, s). 2 * nat (s_min_mistakes s) + (if s_changed s then 1 else 0)))"
    by simp
next
  fix G s s'
  assume "s_changed s" "simple_pass G s = Inr s'"
  then show "((G, s'), (G, s))
    \<in> measure (\<lambda>(G, s). 2 * nat (s_min_mistakes s) + (if s_changed s then 1 else 0))"
    using simple_pass_cases [of G s s'] by auto
qed

definition simple_run :: "graph \<Rightarrow> error + sstate" where
  "simple_run G =
     (let clustering = singleton_clustering (vertices G) in
      case calculate_mistakes G clustering of
        Inl e \<Rightarrow> Inl e
      | Inr min_mistakes \<Rightarrow>
          simple_loop G
            \<lparr>s_clustering = clustering,
             s_best_clustering = clustering,
             s_min_mistakes = min_mistakes,
             s_changed = True,
             s_passes = 0,
             s_accepted = [min_mistakes]\<rparr>)"

definition simple_greedy_clustering :: "graph \<Rightarrow> error + Clustering" where
  "simple_greedy_clustering G =
     (case simple_run G of
        Inl e \<Rightarrow> Inl e
      | Inr s \<Rightarrow>
          Inr \<lparr>clustering = s_best_clustering s,
               mistakes = s_min_mistakes s,
               cluster_count = get_cluster_count (s_best_clustering s)\<rparr>)"

subsection \<open>Validation\<close>

text \<open>\<^verbatim>\<open>validate_clustering\<close>: the set of the keys against the set of the vertices.\<close>

definition validate_clustering :: "graph \<Rightarrow> (int, int) dict \<Rightarrow> bool" where
  "validate_clustering G c =
     (let clustered_vertices = set (dict_keys c) in set (vertices G) = clustered_vertices)"

section \<open>The LP relaxation\<close>

text \<open>
  \<^verbatim>\<open>CorrelationClusteringLP.__init__\<close> stores the vertex list and the two edge lists
  as given, without canonical keys. The fields carry the prefix \<open>lp_\<close> because the
  graph of the searches already has fields of these names.
\<close>

record lp_graph =
  lp_vertices :: "int list"
  lp_positive_edges :: "(int \<times> int) list"
  lp_negative_edges :: "(int \<times> int) list"

definition CorrelationClusteringLP ::
  "int list \<Rightarrow> (int \<times> int) list \<Rightarrow> (int \<times> int) list \<Rightarrow> lp_graph" where
  "CorrelationClusteringLP vs pos neg =
     \<lparr>lp_vertices = vs, lp_positive_edges = pos, lp_negative_edges = neg\<rparr>"

text \<open>
  The dictionary returned by \<^verbatim>\<open>formulate_lp\<close>, one field per key, and the entry
  \<^verbatim>\<open>{'min': 0, 'max': 1}\<close> of \<^verbatim>\<open>variable_bounds\<close>.
\<close>

record bound =
  bound_min :: int
  bound_max :: int

record lp_formulation =
  objective_coefficients :: "int list"
  constraint_coefficients :: "int list list"
  rhs :: "int list"
  constraint_types :: "string list"
  variable_bounds :: "bound list"
  variable_names :: "string list"

text \<open>
  The local variables of \<^verbatim>\<open>formulate_lp\<close>: the six lists of the result, the map
  \<^verbatim>\<open>edge_variable_index\<close> from the key \<^verbatim>\<open>f"{u}_{v}"\<close> to the variable's index, and
  the counter \<^verbatim>\<open>variable_index\<close>.
\<close>

record lp_state = lp_formulation +
  edge_variable_index :: "(string, int) dict"
  variable_index :: int

definition pair_key :: "int \<Rightarrow> int \<Rightarrow> string" where
  "pair_key u v = str_int u @ ''_'' @ str_int v"

definition variable_name :: "int \<Rightarrow> int \<Rightarrow> string" where
  "variable_name u v = ''z_'' @ str_int u @ ''_'' @ str_int v"

text \<open>
  The body of the two loops over the edge lists (lines 278 to 291); the objective
  coefficient is 1 in the first loop and -1 in the second.
\<close>

definition add_variable :: "int \<Rightarrow> lp_state \<Rightarrow> int \<times> int \<Rightarrow> lp_state" where
  "add_variable coefficient s e =
     (case e of (u, v) \<Rightarrow>
        s\<lparr>objective_coefficients := objective_coefficients s @ [coefficient],
          variable_bounds := variable_bounds s @ [\<lparr>bound_min = 0, bound_max = 1\<rparr>],
          variable_names := variable_names s @ [variable_name u v],
          edge_variable_index := dict_set (edge_variable_index s) (pair_key u v) (variable_index s),
          variable_index := variable_index s + 1\<rparr>)"

text \<open>
  Python's \<^verbatim>\<open>a or b\<close> on an optional integer \<open>a\<close>: \<open>None\<close> and \<open>0\<close> are both
  false, and then the value is \<open>b\<close>. \<open>dict_get_default\<close> is \<^verbatim>\<open>d.get(k, default)\<close>.
\<close>

definition py_or :: "int option \<Rightarrow> int \<Rightarrow> int" where
  "py_or a b = (case a of None \<Rightarrow> b | Some i \<Rightarrow> if i = 0 then b else i)"

definition dict_get_default :: "('k, 'v) dict \<Rightarrow> 'k \<Rightarrow> 'v \<Rightarrow> 'v" where
  "dict_get_default d k dflt = (case dict_get d k of None \<Rightarrow> dflt | Some v \<Rightarrow> v)"

text \<open>
  Lines 313 to 315:
  \<^verbatim>\<open>edge_variable_index.get(f"{a}_{b}") or edge_variable_index.get(f"{b}_{a}", -1)\<close>.
\<close>

definition edge_index :: "(string, int) dict \<Rightarrow> int \<Rightarrow> int \<Rightarrow> int" where
  "edge_index evi a b =
     py_or (dict_get evi (pair_key a b)) (dict_get_default evi (pair_key b a) (- 1))"

text \<open>
  \<^verbatim>\<open>xs[i] = v\<close> on a list: a negative index counts from the end, and an index out of
  range raises \<^verbatim>\<open>IndexError\<close>.
\<close>

definition list_set :: "'a list \<Rightarrow> int \<Rightarrow> 'a \<Rightarrow> error + 'a list" where
  "list_set xs i v =
     (if 0 \<le> i \<and> i < int (length xs) then Inr (xs[nat i := v])
      else if - int (length xs) \<le> i \<and> i < 0 then Inr (xs[nat (int (length xs) + i) := v])
      else Inl IndexError)"

text \<open>
  A constraint row: \<^verbatim>\<open>[0] * variable_index\<close>, then the three assignments in the
  order of the source.
\<close>

definition constraint_row :: "int \<Rightarrow> (int \<times> int) list \<Rightarrow> error + int list" where
  "constraint_row n assignments =
     for_each (\<lambda>(i, coefficient) row. list_set row i coefficient) assignments
       (replicate (nat n) 0)"

text \<open>
  The body of the triple loop for the positions \<open>i < j < k\<close> of the vertex list
  (lines 308 to 346). The three rows are appended only when none of the three indices
  is \<open>-1\<close>.
\<close>

definition triangle :: "int list \<Rightarrow> nat \<Rightarrow> nat \<Rightarrow> nat \<Rightarrow> lp_state \<Rightarrow> error + lp_state" where
  "triangle vs i j k s =
     (let vertex_i = vs ! i; vertex_j = vs ! j; vertex_k = vs ! k;
          index_ij = edge_index (edge_variable_index s) vertex_i vertex_j;
          index_ik = edge_index (edge_variable_index s) vertex_i vertex_k;
          index_jk = edge_index (edge_variable_index s) vertex_j vertex_k
      in if index_ij = - 1 \<or> index_ik = - 1 \<or> index_jk = - 1 then Inr s
         else
           case constraint_row (variable_index s)
                  [(index_ij, 1), (index_ik, - 1), (index_jk, - 1)] of
             Inl e \<Rightarrow> Inl e
           | Inr constraint1 \<Rightarrow>
           (case constraint_row (variable_index s)
                   [(index_ij, - 1), (index_ik, 1), (index_jk, - 1)] of
              Inl e \<Rightarrow> Inl e
            | Inr constraint2 \<Rightarrow>
            (case constraint_row (variable_index s)
                    [(index_ij, - 1), (index_ik, - 1), (index_jk, 1)] of
               Inl e \<Rightarrow> Inl e
             | Inr constraint3 \<Rightarrow>
                 Inr (s\<lparr>constraint_coefficients :=
                          constraint_coefficients s @ [constraint1, constraint2, constraint3],
                        rhs := rhs s @ [0, 0, 0],
                        constraint_types := constraint_types s @ [''<='', ''<='', ''<='']\<rparr>))))"

text \<open>The variables built from the two edge lists, before any constraint.\<close>

definition lp_variables :: "lp_graph \<Rightarrow> lp_state" where
  "lp_variables G =
     foldl (add_variable (- 1))
       (foldl (add_variable 1)
          \<lparr>objective_coefficients = [], constraint_coefficients = [], rhs = [],
           constraint_types = [], variable_bounds = [], variable_names = [],
           edge_variable_index = [], variable_index = 0\<rparr>
          (lp_positive_edges G))
       (lp_negative_edges G)"

definition formulate_lp :: "lp_graph \<Rightarrow> error + lp_formulation" where
  "formulate_lp G =
     (let num_vertices = length (lp_vertices G) in
      case for_each
             (\<lambda>i. for_each
                    (\<lambda>j. for_each (\<lambda>k. triangle (lp_vertices G) i j k)
                           [j + 1 ..< num_vertices])
                    [i + 1 ..< num_vertices])
             [0 ..< num_vertices] (lp_variables G) of
        Inl e \<Rightarrow> Inl e
      | Inr s \<Rightarrow>
          Inr \<lparr>objective_coefficients = objective_coefficients s,
               constraint_coefficients = constraint_coefficients s,
               rhs = rhs s,
               constraint_types = constraint_types s,
               variable_bounds = variable_bounds s,
               variable_names = variable_names s\<rparr>)"

subsection \<open>Rounding a solution\<close>

text \<open>
  \<^verbatim>\<open>interpret_solution\<close> reads the solution only through \<^verbatim>\<open>get\<close>, so the solution
  is a partial map from variable names to values. The values are Python floats; they
  are only compared with \<open>-1\<close> and \<open>0.5\<close>, which floats represent exactly, so finite
  values are modelled by the reals they denote (infinities and NaN are left out).
  \<open>z_value\<close> is line 399.
\<close>

definition z_value :: "(string \<rightharpoonup> real) \<Rightarrow> int \<Rightarrow> int \<Rightarrow> real" where
  "z_value lp_solution vertex other_vertex =
     (case lp_solution (variable_name vertex other_vertex) of
        Some z \<Rightarrow> z
      | None \<Rightarrow>
          (case lp_solution (variable_name other_vertex vertex) of
             Some z \<Rightarrow> z
           | None \<Rightarrow> - 1))"

text \<open>The body of the inner loop (lines 395 to 403).\<close>

definition scan_other ::
  "(string \<rightharpoonup> real) \<Rightarrow> int \<Rightarrow> int \<Rightarrow> (int, int) dict \<Rightarrow> int \<Rightarrow> (int, int) dict" where
  "scan_other lp_solution vertex cluster_id labels other_vertex =
     (if vertex = other_vertex then labels
      else
        let z = z_value lp_solution vertex other_vertex
        in if z \<noteq> - 1 \<and> z < 1 / 2
           then dict_set labels other_vertex cluster_id
           else labels)"

text \<open>
  The body of the outer loop on the pair of \<^verbatim>\<open>clustering\<close> and \<^verbatim>\<open>cluster_id\<close>
  (lines 389 to 404). The dictionary \<^verbatim>\<open>clustering\<close> is the variable \<open>labels\<close>.
\<close>

definition visit ::
  "(string \<rightharpoonup> real) \<Rightarrow> int list \<Rightarrow> (int, int) dict \<times> int \<Rightarrow> int \<Rightarrow> (int, int) dict \<times> int" where
  "visit lp_solution vs state vertex =
     (case state of (labels, cluster_id) \<Rightarrow>
        if dict_get labels vertex = None
        then (foldl (scan_other lp_solution vertex cluster_id)
                (dict_set labels vertex cluster_id) vs,
              cluster_id + 1)
        else (labels, cluster_id))"

definition interpret_solution :: "lp_graph \<Rightarrow> (string \<rightharpoonup> real) \<Rightarrow> (int, int) dict" where
  "interpret_solution G lp_solution =
     fst (foldl (visit lp_solution (lp_vertices G)) ([], 0) (lp_vertices G))"

section \<open>Vocabulary of the statements\<close>

text \<open>
  \<open>edges_parse\<close> holds of a graph whose stored keys can all be read back, which is when
  \<open>calculate_mistakes\<close> does not raise; \<open>nonneg_edges\<close> holds of an edge list without a
  negative endpoint. \<open>history m0 acc m\<close> says that the recorded sequence \<open>acc\<close> of
  accepted counts starts at \<open>m0\<close>, strictly decreases and ends at \<open>m\<close>.
\<close>

definition edges_parse :: "graph \<Rightarrow> bool" where
  "edges_parse G = list_all (\<lambda>k. \<not> isl (parse_edge k)) (positive_edges G @ negative_edges G)"

definition nonneg_edges :: "(int \<times> int) list \<Rightarrow> bool" where
  "nonneg_edges es = list_all (\<lambda>(u, v). 0 \<le> u \<and> 0 \<le> v) es"

definition history :: "int \<Rightarrow> int list \<Rightarrow> int \<Rightarrow> bool" where
  "history m0 acc m = (acc \<noteq> [] \<and> hd acc = m0 \<and> last acc = m \<and> sorted_wrt (>) acc)"

text \<open>
  \<open>constraints_ok s0 s\<close> relates the state \<open>s0\<close> before the triple loop of
  \<^verbatim>\<open>formulate_lp\<close> to a later state \<open>s\<close>: the variables are untouched, every
  right-hand side is 0, every constraint type is \<^verbatim>\<open><=\<close>, the three constraint
  lists have one entry per row and every row has one column per variable.
\<close>

definition constraints_ok :: "lp_state \<Rightarrow> lp_state \<Rightarrow> bool" where
  "constraints_ok s0 s =
     (objective_coefficients s = objective_coefficients s0
      \<and> variable_bounds s = variable_bounds s0
      \<and> variable_names s = variable_names s0
      \<and> edge_variable_index s = edge_variable_index s0
      \<and> variable_index s = variable_index s0
      \<and> list_all (\<lambda>r. r = 0) (rhs s)
      \<and> list_all (\<lambda>t. t = ''<='') (constraint_types s)
      \<and> length (rhs s) = length (constraint_coefficients s)
      \<and> length (constraint_types s) = length (constraint_coefficients s)
      \<and> list_all (\<lambda>row. length row = nat (variable_index s0)) (constraint_coefficients s))"

section \<open>Properties of the edge keys\<close>

text \<open>
  For non-negative endpoints the key written by \<open>edge_key\<close> is read back by
  \<open>parse_edge\<close> as the ordered pair. With a negative endpoint the key begins with a
  minus sign, the first piece of the split is empty and \<^verbatim>\<open>int('')\<close> raises.
\<close>

lemma of_char_digit_char: "d < 10 \<Longrightarrow> (of_char (digit_char d) :: nat) = 48 + d"
  by (simp add: digit_char_def)

lemma is_digit_digit_char: "d < 10 \<Longrightarrow> is_digit (digit_char d)"
  by (simp add: is_digit_def of_char_digit_char)

lemma digit_value_digit_char: "d < 10 \<Longrightarrow> digit_value (digit_char d) = d"
  by (simp add: digit_value_def of_char_digit_char)

lemma is_digit_not_minus: "is_digit c \<Longrightarrow> c \<noteq> CHR ''-''"
  by (auto simp: is_digit_def)

lemma str_nat_nonempty: "str_nat n \<noteq> []"
  by (subst str_nat.simps) simp

lemma str_nat_digits: "list_all is_digit (str_nat n)"
proof (induction n rule: str_nat.induct)
  case (1 n)
  show ?case
  proof (cases "n < 10")
    case True
    then show ?thesis by (subst str_nat.simps) (simp add: is_digit_digit_char)
  next
    case False
    with 1 show ?thesis by (subst str_nat.simps) (simp add: is_digit_digit_char)
  qed
qed

lemma foldl_str_nat: "foldl (\<lambda>a c. 10 * a + digit_value c) 0 (str_nat n) = n"
proof (induction n rule: str_nat.induct)
  case (1 n)
  show ?case
  proof (cases "n < 10")
    case True
    then show ?thesis by (subst str_nat.simps) (simp add: digit_value_digit_char)
  next
    case False
    with 1 show ?thesis by (subst str_nat.simps) (simp add: digit_value_digit_char)
  qed
qed

lemma py_int_str_nat: "py_int (str_nat n) = Inr (int n)"
  by (simp add: py_int_def str_nat_nonempty str_nat_digits foldl_str_nat)

lemma split_from_no_sep: "sep \<notin> set s \<Longrightarrow> split_from sep cur s = [cur @ s]"
  by (induction s arbitrary: cur) auto

lemma split_from_sep:
  "sep \<notin> set s \<Longrightarrow> split_from sep cur (s @ sep # t) = (cur @ s) # split_from sep [] t"
  by (induction s arbitrary: cur) auto

lemma minus_notin_str_nat: "CHR ''-'' \<notin> set (str_nat n)"
  using str_nat_digits [of n] is_digit_not_minus by (auto simp: list_all_iff)

lemma parse_edge_key:
  assumes "0 \<le> u" "0 \<le> v"
  shows "parse_edge (edge_key u v) = Inr (min u v, max u v)"
proof -
  have "str_split (edge_key u v) CHR ''-'' = [str_nat (nat (min u v)), str_nat (nat (max u v))]"
    using assms
    by (simp add: str_split_def edge_key_def str_int_def split_from_sep split_from_no_sep
        minus_notin_str_nat)
  moreover have "0 \<le> min u v" "0 \<le> max u v" using assms by auto
  ultimately show ?thesis by (simp add: parse_edge_def py_int_str_nat)
qed

lemma parse_edge_key_negative:
  assumes "u < 0 \<or> v < 0"
  shows "parse_edge (edge_key u v) = Inl ValueError"
proof -
  have "min u v < 0" using assms by auto
  then have "\<exists>ps. str_split (edge_key u v) CHR ''-'' = [] # ps"
    by (simp add: str_split_def edge_key_def str_int_def)
  then obtain ps where "str_split (edge_key u v) CHR ''-'' = [] # ps" ..
  then show ?thesis by (simp add: parse_edge_def py_int_def)
qed

section \<open>The mistake count on the three-vertex example\<close>

lemma example_graph:
  "CorrelationClustering [1, 2, 3] [(1, 2), (2, 3)] [(1, 3)] =
     \<lparr>vertices = [1, 2, 3], positive_edges = [''1-2'', ''2-3''], negative_edges = [''1-3'']\<rparr>"
  by code_simp

lemma example_keys:
  "parse_edge ''1-2'' = Inr (1, 2)" "parse_edge ''2-3'' = Inr (2, 3)"
  "parse_edge ''1-3'' = Inr (1, 3)"
  by code_simp+

text \<open>
  Claim C1, as amended. On the graph with positive edges (1,2), (2,3) and negative edge
  (1,3), \<open>calculate_mistakes\<close> returns 1 for the clustering that puts the three
  vertices under one label \<open>A\<close>, and it returns 1, not 0, for the clustering that puts
  1 and 2 under \<open>A\<close> and 3 under \<open>B\<close>, whatever the labels: with \<open>A \<noteq> B\<close> the negative
  edge is satisfied but the positive edge (2,3) joins two clusters.
\<close>

theorem calculate_mistakes_example:
  "calculate_mistakes (CorrelationClustering [1, 2, 3] [(1, 2), (2, 3)] [(1, 3)])
       [(1, A), (2, A), (3, A)] = Inr 1
   \<and> calculate_mistakes (CorrelationClustering [1, 2, 3] [(1, 2), (2, 3)] [(1, 3)])
       [(1, A), (2, A), (3, B)] = Inr 1"
  by (simp add: example_graph example_keys calculate_mistakes_def dict_get_def)

text \<open>
  Claim C1 as stated (1 mistake for the first clustering and 0 for the second) is false,
  here with the labels 0 and 1.
\<close>

theorem calculate_mistakes_example_counterexample:
  "\<not> (calculate_mistakes (CorrelationClustering [1, 2, 3] [(1, 2), (2, 3)] [(1, 3)])
          [(1, 0), (2, 0), (3, 0)] = Inr 1
      \<and> calculate_mistakes (CorrelationClustering [1, 2, 3] [(1, 2), (2, 3)] [(1, 3)])
          [(1, 0), (2, 0), (3, 1)] = Inr 0)"
  by (simp add: example_graph example_keys calculate_mistakes_def dict_get_def)

section \<open>When the mistake count returns\<close>

text \<open>
  \<open>calculate_mistakes\<close> returns exactly when every stored key parses, whatever the
  clustering; a graph built by the constructor from edges without a negative endpoint
  is such a graph.
\<close>

lemma count_positive_total:
  "list_all (\<lambda>k. \<not> isl (parse_edge k)) ks \<Longrightarrow> \<exists>m'. count_positive c ks m = Inr m'"
  by (induction ks arbitrary: m) (auto split: sum.splits)

lemma count_negative_total:
  "list_all (\<lambda>k. \<not> isl (parse_edge k)) ks \<Longrightarrow> \<exists>m'. count_negative c ks m = Inr m'"
  by (induction ks arbitrary: m) (auto split: sum.splits)

lemma calculate_mistakes_total:
  assumes "edges_parse G"
  shows "\<exists>m. calculate_mistakes G c = Inr m"
proof -
  from assms obtain p where "count_positive c (positive_edges G) 0 = Inr p"
    using count_positive_total [of "positive_edges G" c 0] by (auto simp: edges_parse_def)
  moreover from assms obtain m where "count_negative c (negative_edges G) p = Inr m"
    using count_negative_total [of "negative_edges G" c p] by (auto simp: edges_parse_def)
  ultimately show ?thesis by (simp add: calculate_mistakes_def)
qed

lemma nonneg_edges_parse:
  assumes "nonneg_edges pos" "nonneg_edges neg"
  shows "edges_parse (CorrelationClustering vs pos neg)"
proof -
  have "list_all (\<lambda>k. \<not> isl (parse_edge k)) (remdups (map (\<lambda>(u, v). edge_key u v) es))"
    if "nonneg_edges es" for es
    using that by (auto simp: nonneg_edges_def list_all_iff parse_edge_key)
  then show ?thesis using assms by (simp add: edges_parse_def CorrelationClustering_def)
qed

section \<open>Invariants of the two searches\<close>

lemma sorted_wrt_greater_last:
  "sorted_wrt (>) xs \<Longrightarrow> x \<in> set xs \<Longrightarrow> last xs \<le> (x::int)"
  by (induction xs) (auto simp: less_imp_le)

lemma history_start: "history m [m] m"
  by (simp add: history_def)

lemma history_commit:
  assumes "history m0 acc m" "m' < m"
  shows "history m0 (acc @ [m']) m'"
proof -
  have "\<forall>x\<in>set acc. m' < x"
    using assms sorted_wrt_greater_last [of acc] by (fastforce simp: history_def)
  then show ?thesis using assms by (auto simp: history_def sorted_wrt_append)
qed

lemma history_le: "history m0 acc m \<Longrightarrow> m \<le> m0"
  using sorted_wrt_greater_last [of acc "hd acc"] by (auto simp: history_def)

lemma try_merge_cases:
  assumes "try_merge G a b s = Inr s'"
  shows "s' = s \<or>
    (g_improved s' \<and> 0 \<le> g_min_mistakes s' \<and> g_min_mistakes s' < g_min_mistakes s
      \<and> g_accepted s' = g_accepted s @ [g_min_mistakes s'] \<and> g_iterations s' = g_iterations s
      \<and> calculate_mistakes G (g_clustering s') = Inr (g_min_mistakes s')
      \<and> g_best_clustering s' = g_clustering s'
      \<and> g_clustering s' = relabel (g_clustering s) a b)"
  using assms
  by (auto simp: try_merge_def Let_def split: sum.splits if_splits
      dest: calculate_mistakes_nonneg)

lemma try_merge_total:
  "edges_parse G \<Longrightarrow> \<exists>s'. try_merge G a b s = Inr s'"
  using calculate_mistakes_total [of G "relabel (g_clustering s) a b"]
  by (auto simp: try_merge_def Let_def)

lemma simple_try_total:
  "edges_parse G \<Longrightarrow> \<exists>s'. simple_try G a b s = Inr s'"
  using calculate_mistakes_total [of G "relabel (s_clustering s) a b"]
  by (auto simp: simple_try_def Let_def)

lemma simple_step_total:
  "edges_parse G \<Longrightarrow> \<exists>s'. simple_step G u v s = Inr s'"
  using simple_try_total [of G]
  by (auto simp: simple_step_def Let_def split: option.splits)

text \<open>The two nested loops of a round, as one loop over pairs.\<close>

lemma for_each2_invariant:
  assumes "for_each (\<lambda>x. for_each (body x) (ys x)) xs s = Inr s'" and "P s"
    and "\<And>x y t t'. P t \<Longrightarrow> body x y t = Inr t' \<Longrightarrow> P t'"
  shows "P s'"
proof -
  have inner: "P t'" if "P t" "for_each (body x) (ys x) t = Inr t'" for x t t'
    using that(2,1) by (rule for_each_invariant) (rule assms(3))
  show ?thesis using assms(1,2) by (rule for_each_invariant) (rule inner)
qed

lemma for_each2_total:
  assumes "\<And>x y t. \<exists>t'. body x y t = Inr t'"
  shows "\<exists>s'. for_each (\<lambda>x. for_each (body x) (ys x)) xs s = Inr s'"
proof -
  have inner: "\<exists>t'. for_each (body x) (ys x) t = Inr t' \<and> True" for x t
    by (rule for_each_total) (use assms in auto)
  have "\<exists>s'. for_each (\<lambda>x. for_each (body x) (ys x)) xs s = Inr s' \<and> True"
    by (rule for_each_total) (use inner in auto)
  then show ?thesis by simp
qed

lemma greedy_round_invariant:
  assumes "greedy_round so G s = Inr s'"
    and "P (s\<lparr>g_improved := False, g_iterations := g_iterations s + 1\<rparr>)"
    and "\<And>a b t t'. P t \<Longrightarrow> try_merge G a b t = Inr t' \<Longrightarrow> P t'"
  shows "P s'"
  using assms(1) unfolding greedy_round_def Let_def
  by (rule for_each2_invariant [where P = P and body = "\<lambda>i j. try_merge G (_ ! i) (_ ! j)"])
     (use assms(2,3) in auto)

lemma greedy_round_total:
  "edges_parse G \<Longrightarrow> \<exists>s'. greedy_round so G s = Inr s'"
  unfolding greedy_round_def Let_def
  by (rule for_each2_total [where body = "\<lambda>i j. try_merge G (_ ! i) (_ ! j)"])
     (simp add: try_merge_total)

lemma simple_pass_invariant:
  assumes "simple_pass G s = Inr s'"
    and "P (s\<lparr>s_changed := False, s_passes := s_passes s + 1\<rparr>)"
    and "\<And>u v t t'. P t \<Longrightarrow> simple_step G u v t = Inr t' \<Longrightarrow> P t'"
  shows "P s'"
  using assms(1) unfolding simple_pass_def
  by (rule for_each2_invariant [where P = P and body = "simple_step G"])
     (use assms(2,3) in auto)

lemma simple_pass_total:
  "edges_parse G \<Longrightarrow> \<exists>s'. simple_pass G s = Inr s'"
  unfolding simple_pass_def
  by (rule for_each2_total [where body = "simple_step G"]) (simp add: simple_step_total)

text \<open>
  The equations of the two \<^verbatim>\<open>while\<close> loops are unconditional, so they are unfolded
  by hand.
\<close>

declare greedy_loop.simps [simp del]

declare simple_loop.simps [simp del]

lemma greedy_loop_invariant:
  assumes "greedy_loop so G mx s = Inr st" and "P s"
    and "\<And>t t'. P t \<Longrightarrow> greedy_round so G t = Inr t' \<Longrightarrow> P t'"
  shows "P st"
  using assms
proof (induction so G mx s rule: greedy_loop.induct)
  case (1 so G mx s)
  show ?case
  proof (cases "g_improved s \<and> g_iterations s < mx")
    case True
    with "1.prems"(1) obtain s' where r: "greedy_round so G s = Inr s'"
      and l: "greedy_loop so G mx s' = Inr st"
      by (subst (asm) greedy_loop.simps) (auto split: sum.splits)
    have "P s'" using "1.prems"(3) [OF "1.prems"(2) r] .
    then show ?thesis using "1.IH" [OF True r l] "1.prems"(3) by blast
  next
    case False
    with "1.prems" show ?thesis by (subst (asm) greedy_loop.simps) simp
  qed
qed

lemma greedy_loop_total:
  assumes "edges_parse G"
  shows "\<exists>st. greedy_loop so G mx s = Inr st"
  using assms
proof (induction so G mx s rule: greedy_loop.induct)
  case (1 so G mx s)
  show ?case
  proof (cases "g_improved s \<and> g_iterations s < mx")
    case True
    from greedy_round_total [OF "1.prems"] obtain s' where r: "greedy_round so G s = Inr s'"
      by blast
    from "1.IH" [OF True r "1.prems"] show ?thesis
      using True r by (subst greedy_loop.simps) simp
  next
    case False
    then show ?thesis by (subst greedy_loop.simps) auto
  qed
qed

lemma greedy_loop_cap:
  assumes "greedy_loop so G mx s = Inr st" and "g_iterations s \<le> mx"
  shows "g_iterations st \<le> mx \<and> (g_improved st \<longrightarrow> g_iterations st = mx)"
  using assms
proof (induction so G mx s rule: greedy_loop.induct)
  case (1 so G mx s)
  show ?case
  proof (cases "g_improved s \<and> g_iterations s < mx")
    case True
    with "1.prems"(1) obtain s' where r: "greedy_round so G s = Inr s'"
      and l: "greedy_loop so G mx s' = Inr st"
      by (subst (asm) greedy_loop.simps) (auto split: sum.splits)
    have "g_iterations s' \<le> mx" using greedy_round_iterations [OF r] True by simp
    then show ?thesis using "1.IH" [OF True r l] by blast
  next
    case False
    with "1.prems" show ?thesis by (subst (asm) greedy_loop.simps) auto
  qed
qed

text \<open>A round ends with the flag set exactly when it committed a merge.\<close>

lemma greedy_round_flag:
  assumes "greedy_round so G s = Inr s'"
  shows "(\<not> g_improved s' \<and> g_accepted s' = g_accepted s \<and> g_clustering s' = g_clustering s
            \<and> g_min_mistakes s' = g_min_mistakes s)
       \<or> (g_improved s' \<and> length (g_accepted s) < length (g_accepted s')
            \<and> g_min_mistakes s' < g_min_mistakes s)"
proof -
  let ?P = "\<lambda>t. (\<not> g_improved t \<and> g_accepted t = g_accepted s \<and> g_clustering t = g_clustering s
            \<and> g_min_mistakes t = g_min_mistakes s)
       \<or> (g_improved t \<and> length (g_accepted s) < length (g_accepted t)
            \<and> g_min_mistakes t < g_min_mistakes s)"
  show ?thesis
    using assms
  proof (rule greedy_round_invariant [where P = ?P])
    fix a b t t' assume "?P t" "try_merge G a b t = Inr t'"
    then show "?P t'" using try_merge_cases [of G a b t t'] by auto
  qed simp
qed

lemma greedy_round_history:
  assumes "greedy_round so G s = Inr s'" "history m0 (g_accepted s) (g_min_mistakes s)"
  shows "history m0 (g_accepted s') (g_min_mistakes s')"
  using assms(1)
proof (rule greedy_round_invariant [where P = "\<lambda>t. history m0 (g_accepted t) (g_min_mistakes t)"])
  fix a b t t' assume "history m0 (g_accepted t) (g_min_mistakes t)" "try_merge G a b t = Inr t'"
  then show "history m0 (g_accepted t') (g_min_mistakes t')"
    using try_merge_cases [of G a b t t'] history_commit [of m0 "g_accepted t" "g_min_mistakes t"]
    by auto
qed (use assms(2) in simp)

lemma greedy_run_history:
  assumes "greedy_run so G = Inr st"
  shows "\<exists>m0. calculate_mistakes G (singleton_clustering (vertices G)) = Inr m0
           \<and> history m0 (g_accepted st) (g_min_mistakes st)"
proof -
  from assms obtain m0 where
    m0: "calculate_mistakes G (singleton_clustering (vertices G)) = Inr m0"
    and l: "greedy_loop so G (length (vertices G) * length (vertices G))
            \<lparr>g_clustering = singleton_clustering (vertices G),
             g_best_clustering = singleton_clustering (vertices G),
             g_min_mistakes = m0, g_improved = True, g_iterations = 0,
             g_accepted = [m0]\<rparr> = Inr st"
    by (auto simp: greedy_run_def Let_def split: sum.splits)
  have "history m0 (g_accepted st) (g_min_mistakes st)"
    using l
    by (rule greedy_loop_invariant [where P = "\<lambda>t. history m0 (g_accepted t) (g_min_mistakes t)"])
       (auto simp: history_start intro: greedy_round_history)
  with m0 show ?thesis by blast
qed

text \<open>The same facts for the vertex-pair search.\<close>

lemma simple_loop_invariant:
  assumes "simple_loop G s = Inr st" and "P s"
    and "\<And>t t'. P t \<Longrightarrow> simple_pass G t = Inr t' \<Longrightarrow> P t'"
  shows "P st"
  using assms
proof (induction G s rule: simple_loop.induct)
  case (1 G s)
  show ?case
  proof (cases "s_changed s")
    case True
    with "1.prems"(1) obtain s' where r: "simple_pass G s = Inr s'"
      and l: "simple_loop G s' = Inr st"
      by (subst (asm) simple_loop.simps) (auto split: sum.splits)
    have "P s'" using "1.prems"(3) [OF "1.prems"(2) r] .
    then show ?thesis using "1.IH" [OF True r l] "1.prems"(3) by blast
  next
    case False
    with "1.prems" show ?thesis by (subst (asm) simple_loop.simps) simp
  qed
qed

lemma simple_loop_total:
  assumes "edges_parse G"
  shows "\<exists>st. simple_loop G s = Inr st"
  using assms
proof (induction G s rule: simple_loop.induct)
  case (1 G s)
  show ?case
  proof (cases "s_changed s")
    case True
    from simple_pass_total [OF "1.prems"] obtain s' where r: "simple_pass G s = Inr s'"
      by blast
    from "1.IH" [OF True r "1.prems"] show ?thesis
      using True r by (subst simple_loop.simps) simp
  next
    case False
    then show ?thesis by (subst simple_loop.simps) simp
  qed
qed

lemma simple_pass_history:
  assumes "simple_pass G s = Inr s'" "history m0 (s_accepted s) (s_min_mistakes s)"
  shows "history m0 (s_accepted s') (s_min_mistakes s')"
  using assms(1)
proof (rule simple_pass_invariant [where P = "\<lambda>t. history m0 (s_accepted t) (s_min_mistakes t)"])
  fix u v t t' assume "history m0 (s_accepted t) (s_min_mistakes t)" "simple_step G u v t = Inr t'"
  then show "history m0 (s_accepted t') (s_min_mistakes t')"
    using simple_step_cases [of G u v t t'] history_commit [of m0 "s_accepted t" "s_min_mistakes t"]
    by auto
qed (use assms(2) in simp)

lemma simple_pass_passes:
  assumes "simple_pass G s = Inr s'"
  shows "s_passes s' = s_passes s + 1"
proof -
  define n where "n = s_passes s + 1"
  have "s_passes s' = n"
    using assms
  proof (rule simple_pass_invariant [where P = "\<lambda>t. s_passes t = n"])
    fix u v t t' assume "s_passes t = n" "simple_step G u v t = Inr t'"
    then show "s_passes t' = n" using simple_step_cases [of G u v t t'] by auto
  qed (simp add: n_def)
  then show ?thesis by (simp add: n_def)
qed

lemma simple_run_history:
  assumes "simple_run G = Inr st"
  shows "\<exists>m0. calculate_mistakes G (singleton_clustering (vertices G)) = Inr m0
           \<and> history m0 (s_accepted st) (s_min_mistakes st)"
proof -
  from assms obtain m0 where
    m0: "calculate_mistakes G (singleton_clustering (vertices G)) = Inr m0"
    and l: "simple_loop G
            \<lparr>s_clustering = singleton_clustering (vertices G),
             s_best_clustering = singleton_clustering (vertices G),
             s_min_mistakes = m0, s_changed = True, s_passes = 0,
             s_accepted = [m0]\<rparr> = Inr st"
    by (auto simp: simple_run_def Let_def split: sum.splits)
  have "history m0 (s_accepted st) (s_min_mistakes st)"
    using l
    by (rule simple_loop_invariant [where P = "\<lambda>t. history m0 (s_accepted t) (s_min_mistakes t)"])
       (auto simp: history_start intro: simple_pass_history)
  with m0 show ?thesis by blast
qed

lemma simple_loop_passes:
  assumes "simple_loop G s = Inr st" "0 \<le> s_min_mistakes s"
  shows "0 \<le> s_min_mistakes st \<and>
         int (s_passes st) + s_min_mistakes st
           \<le> int (s_passes s) + s_min_mistakes s + (if s_changed s then 1 else 0)"
  using assms
proof (induction G s rule: simple_loop.induct)
  case (1 G s)
  show ?case
  proof (cases "s_changed s")
    case True
    with "1.prems"(1) obtain s' where r: "simple_pass G s = Inr s'"
      and l: "simple_loop G s' = Inr st"
      by (subst (asm) simple_loop.simps) (auto split: sum.splits)
    have p: "s_passes s' = s_passes s + 1" by (rule simple_pass_passes [OF r])
    from simple_pass_cases [OF r] have nn: "0 \<le> s_min_mistakes s'"
      using "1.prems"(2) by auto
    from "1.IH" [OF True r l nn] simple_pass_cases [OF r] p True show ?thesis
      by (auto split: if_splits)
  next
    case False
    with "1.prems" show ?thesis by (subst (asm) simple_loop.simps) auto
  qed
qed

lemma count_positive_parses:
  "count_positive c ks m = Inr m' \<Longrightarrow> list_all (\<lambda>k. \<not> isl (parse_edge k)) ks"
  by (induction ks arbitrary: m) (auto split: sum.splits)

lemma count_negative_parses:
  "count_negative c ks m = Inr m' \<Longrightarrow> list_all (\<lambda>k. \<not> isl (parse_edge k)) ks"
  by (induction ks arbitrary: m) (auto split: sum.splits)

lemma calculate_mistakes_parses:
  "calculate_mistakes G c = Inr m \<Longrightarrow> edges_parse G"
  by (auto simp: calculate_mistakes_def edges_parse_def split: sum.splits
      dest: count_positive_parses count_negative_parses)

lemma greedy_run_raises:
  "calculate_mistakes G (singleton_clustering (vertices G)) = Inl e \<Longrightarrow> greedy_run so G = Inl e"
  by (simp add: greedy_run_def)

lemma simple_run_raises:
  "calculate_mistakes G (singleton_clustering (vertices G)) = Inl e \<Longrightarrow> simple_run G = Inl e"
  by (simp add: simple_run_def)

lemma greedy_run_returns:
  assumes "calculate_mistakes G (singleton_clustering (vertices G)) = Inr m0"
  shows "\<exists>st. greedy_run so G = Inr st"
  using assms greedy_loop_total [OF calculate_mistakes_parses [OF assms]]
  by (simp add: greedy_run_def Let_def)

lemma simple_run_returns:
  assumes "calculate_mistakes G (singleton_clustering (vertices G)) = Inr m0"
  shows "\<exists>st. simple_run G = Inr st"
  using assms simple_loop_total [OF calculate_mistakes_parses [OF assms]]
  by (simp add: simple_run_def Let_def)

section \<open>Monotone improvement\<close>

text \<open>
  Claim C5. Take any graph on which the count of the initial singleton partition
  returns, say \<open>m0\<close> (when it raises, both searches raise the same error before their
  loops: lemmas \<open>greedy_run_raises\<close> and \<open>simple_run_raises\<close>). Then both searches
  return, for every iteration order of the label set. The sequence of values given to
  \<^verbatim>\<open>min_mistakes\<close> starts with \<open>m0\<close> and is strictly decreasing, so each committed
  candidate lowers the count; its last element is the \<^verbatim>\<open>mistakes\<close> field of the
  returned \<^verbatim>\<open>Clustering\<close>, which is therefore at most \<open>m0\<close>.
\<close>

theorem local_search_monotone:
  assumes "calculate_mistakes G (singleton_clustering (vertices G)) = Inr m0"
  shows "(\<exists>gs R. greedy_run set_order G = Inr gs
            \<and> greedy_correlation_clustering set_order G = Inr R
            \<and> hd (g_accepted gs) = m0 \<and> sorted_wrt (>) (g_accepted gs)
            \<and> last (g_accepted gs) = mistakes R \<and> mistakes R \<le> m0)
       \<and> (\<exists>ss R. simple_run G = Inr ss
            \<and> simple_greedy_clustering G = Inr R
            \<and> hd (s_accepted ss) = m0 \<and> sorted_wrt (>) (s_accepted ss)
            \<and> last (s_accepted ss) = mistakes R \<and> mistakes R \<le> m0)"
proof
  from greedy_run_returns [OF assms] obtain gs where gs: "greedy_run set_order G = Inr gs"
    by blast
  from greedy_run_history [OF gs] assms
  have h: "history m0 (g_accepted gs) (g_min_mistakes gs)" by simp
  show "\<exists>gs R. greedy_run set_order G = Inr gs
            \<and> greedy_correlation_clustering set_order G = Inr R
            \<and> hd (g_accepted gs) = m0 \<and> sorted_wrt (>) (g_accepted gs)
            \<and> last (g_accepted gs) = mistakes R \<and> mistakes R \<le> m0"
    using gs h history_le [OF h]
    by (simp add: greedy_correlation_clustering_def history_def)
next
  from simple_run_returns [OF assms] obtain ss where ss: "simple_run G = Inr ss"
    by blast
  from simple_run_history [OF ss] assms
  have h: "history m0 (s_accepted ss) (s_min_mistakes ss)" by simp
  show "\<exists>ss R. simple_run G = Inr ss
            \<and> simple_greedy_clustering G = Inr R
            \<and> hd (s_accepted ss) = m0 \<and> sorted_wrt (>) (s_accepted ss)
            \<and> last (s_accepted ss) = mistakes R \<and> mistakes R \<le> m0"
    using ss h history_le [OF h]
    by (simp add: simple_greedy_clustering_def history_def)
qed

text \<open>
  The graph of the test suite: five vertices, positive edges (1,2), (2,3), (4,5),
  negative edges (1,4), (2,5). The singleton partition has 3 mistakes and both searches
  accept the counts 3, 2, 1, 0.
\<close>

lemma five_vertex_initial:
  "calculate_mistakes (CorrelationClustering [1, 2, 3, 4, 5] [(1, 2), (2, 3), (4, 5)] [(1, 4), (2, 5)])
     (singleton_clustering (vertices
        (CorrelationClustering [1, 2, 3, 4, 5] [(1, 2), (2, 3), (4, 5)] [(1, 4), (2, 5)]))) = Inr 3"
  by code_simp

lemma five_vertex_greedy:
  "greedy_run remdups
     (CorrelationClustering [1, 2, 3, 4, 5] [(1, 2), (2, 3), (4, 5)] [(1, 4), (2, 5)]) =
   Inr \<lparr>g_clustering = [(1, 3), (2, 3), (3, 3), (4, 5), (5, 5)],
        g_best_clustering = [(1, 3), (2, 3), (3, 3), (4, 5), (5, 5)],
        g_min_mistakes = 0, g_improved = False, g_iterations = 2,
        g_accepted = [3, 2, 1, 0]\<rparr>"
  by code_simp

lemma five_vertex_simple:
  "simple_run (CorrelationClustering [1, 2, 3, 4, 5] [(1, 2), (2, 3), (4, 5)] [(1, 4), (2, 5)]) =
   Inr \<lparr>s_clustering = [(1, 3), (2, 3), (3, 3), (4, 5), (5, 5)],
        s_best_clustering = [(1, 3), (2, 3), (3, 3), (4, 5), (5, 5)],
        s_min_mistakes = 0, s_changed = False, s_passes = 2,
        s_accepted = [3, 2, 1, 0]\<rparr>"
  by code_simp

theorem local_search_monotone_witness:
  "calculate_mistakes (CorrelationClustering [1, 2, 3, 4, 5] [(1, 2), (2, 3), (4, 5)] [(1, 4), (2, 5)])
     (singleton_clustering (vertices
        (CorrelationClustering [1, 2, 3, 4, 5] [(1, 2), (2, 3), (4, 5)] [(1, 4), (2, 5)]))) = Inr 3
   \<and> (\<exists>gs R. greedy_run remdups
          (CorrelationClustering [1, 2, 3, 4, 5] [(1, 2), (2, 3), (4, 5)] [(1, 4), (2, 5)]) = Inr gs
        \<and> greedy_correlation_clustering remdups
          (CorrelationClustering [1, 2, 3, 4, 5] [(1, 2), (2, 3), (4, 5)] [(1, 4), (2, 5)]) = Inr R
        \<and> g_accepted gs = [3, 2, 1, 0] \<and> hd (g_accepted gs) = 3 \<and> sorted_wrt (>) (g_accepted gs)
        \<and> last (g_accepted gs) = mistakes R \<and> mistakes R \<le> 3)
   \<and> (\<exists>ss R. simple_run
          (CorrelationClustering [1, 2, 3, 4, 5] [(1, 2), (2, 3), (4, 5)] [(1, 4), (2, 5)]) = Inr ss
        \<and> simple_greedy_clustering
          (CorrelationClustering [1, 2, 3, 4, 5] [(1, 2), (2, 3), (4, 5)] [(1, 4), (2, 5)]) = Inr R
        \<and> s_accepted ss = [3, 2, 1, 0] \<and> hd (s_accepted ss) = 3 \<and> sorted_wrt (>) (s_accepted ss)
        \<and> last (s_accepted ss) = mistakes R \<and> mistakes R \<le> 3)"
  using local_search_monotone [OF five_vertex_initial, of remdups]
  by (simp add: five_vertex_initial five_vertex_greedy five_vertex_simple)

section \<open>Termination of the cluster-merge search\<close>

text \<open>
  Claim C6. \<open>greedy_loop\<close> is a total function: its termination proof is the decrease
  of \<open>max_iterations - iterations\<close>. A run that returns has executed at most
  \<open>|V|\<^sup>2\<close> rounds, and it ends with the flag still set only when it executed exactly
  that many. A full round that commits no improving merge, that is a round after which
  the history of accepted counts is what it was before, is the last one: it leaves the
  flag unset and the loop returns the state that round produced, whatever the cap. A
  round that commits a merge sets the flag, and the loop goes on from the state it
  produced. The search returns whenever the initial count returns, and raises the
  error of the initial count otherwise.
\<close>

theorem greedy_rounds_capped:
  "(greedy_run set_order G = Inr st \<longrightarrow>
      g_iterations st \<le> length (vertices G) * length (vertices G)
      \<and> (g_improved st \<longrightarrow> g_iterations st = length (vertices G) * length (vertices G)))
   \<and> (g_improved s \<and> g_iterations s < mx \<and> greedy_round set_order G s = Inr s'
        \<and> g_accepted s' = g_accepted s \<longrightarrow>
      greedy_loop set_order G mx s = Inr s' \<and> g_iterations s' = g_iterations s + 1
      \<and> \<not> g_improved s')
   \<and> (g_improved s \<and> g_iterations s < mx \<and> greedy_round set_order G s = Inr s'
        \<and> g_accepted s' \<noteq> g_accepted s \<longrightarrow>
      g_improved s' \<and> g_min_mistakes s' < g_min_mistakes s
      \<and> greedy_loop set_order G mx s = greedy_loop set_order G mx s')
   \<and> (calculate_mistakes G (singleton_clustering (vertices G)) = Inr m0 \<longrightarrow>
        (\<exists>st. greedy_run set_order G = Inr st))
   \<and> (calculate_mistakes G (singleton_clustering (vertices G)) = Inl e \<longrightarrow>
        greedy_run set_order G = Inl e)"
proof (intro conjI impI)
  assume run: "greedy_run set_order G = Inr st"
  then obtain m0 where l: "greedy_loop set_order G (length (vertices G) * length (vertices G))
            \<lparr>g_clustering = singleton_clustering (vertices G),
             g_best_clustering = singleton_clustering (vertices G),
             g_min_mistakes = m0, g_improved = True, g_iterations = 0,
             g_accepted = [m0]\<rparr> = Inr st"
    by (auto simp: greedy_run_def Let_def split: sum.splits)
  from greedy_loop_cap [OF l]
  show "g_iterations st \<le> length (vertices G) * length (vertices G)"
    and "g_improved st \<Longrightarrow> g_iterations st = length (vertices G) * length (vertices G)"
    by simp_all
next
  assume a: "g_improved s \<and> g_iterations s < mx \<and> greedy_round set_order G s = Inr s'
        \<and> g_accepted s' = g_accepted s"
  with greedy_round_flag [of set_order G s s'] show unset: "\<not> g_improved s'" by auto
  from a have "greedy_loop set_order G mx s = greedy_loop set_order G mx s'"
    by (subst greedy_loop.simps) simp
  also have "\<dots> = Inr s'" using unset by (subst greedy_loop.simps) simp
  finally show "greedy_loop set_order G mx s = Inr s'" .
  from a greedy_round_iterations [of set_order G s s']
  show "g_iterations s' = g_iterations s + 1" by simp
next
  assume a: "g_improved s \<and> g_iterations s < mx \<and> greedy_round set_order G s = Inr s'
        \<and> g_accepted s' \<noteq> g_accepted s"
  with greedy_round_flag [of set_order G s s']
  show "g_improved s'" and "g_min_mistakes s' < g_min_mistakes s" by auto
  from a show "greedy_loop set_order G mx s = greedy_loop set_order G mx s'"
    by (subst greedy_loop.simps) simp
next
  assume "calculate_mistakes G (singleton_clustering (vertices G)) = Inr m0"
  then show "\<exists>st. greedy_run set_order G = Inr st" by (rule greedy_run_returns)
next
  assume "calculate_mistakes G (singleton_clustering (vertices G)) = Inl e"
  then show "greedy_run set_order G = Inl e" by (rule greedy_run_raises)
qed

text \<open>
  The five-vertex graph again, with 25 rounds allowed. The first round commits three
  merges. The second round lists the labels 3 and 5, evaluates the merge of cluster 3
  into cluster 5 (which would give 2 mistakes) and commits nothing; the loop ends
  there, after 2 rounds. A graph with a negative vertex identifier in an edge makes
  the initial count raise.
\<close>

lemma five_vertex_first_round:
  "greedy_round remdups
     (CorrelationClustering [1, 2, 3, 4, 5] [(1, 2), (2, 3), (4, 5)] [(1, 4), (2, 5)])
     \<lparr>g_clustering = [(1, 1), (2, 2), (3, 3), (4, 4), (5, 5)],
      g_best_clustering = [(1, 1), (2, 2), (3, 3), (4, 4), (5, 5)],
      g_min_mistakes = 3, g_improved = True, g_iterations = 0, g_accepted = [3]\<rparr> =
   Inr \<lparr>g_clustering = [(1, 3), (2, 3), (3, 3), (4, 5), (5, 5)],
        g_best_clustering = [(1, 3), (2, 3), (3, 3), (4, 5), (5, 5)],
        g_min_mistakes = 0, g_improved = True, g_iterations = 1,
        g_accepted = [3, 2, 1, 0]\<rparr>"
  by code_simp

lemma five_vertex_second_round:
  "greedy_round remdups
     (CorrelationClustering [1, 2, 3, 4, 5] [(1, 2), (2, 3), (4, 5)] [(1, 4), (2, 5)])
     \<lparr>g_clustering = [(1, 3), (2, 3), (3, 3), (4, 5), (5, 5)],
      g_best_clustering = [(1, 3), (2, 3), (3, 3), (4, 5), (5, 5)],
      g_min_mistakes = 0, g_improved = True, g_iterations = 1,
      g_accepted = [3, 2, 1, 0]\<rparr> =
   Inr \<lparr>g_clustering = [(1, 3), (2, 3), (3, 3), (4, 5), (5, 5)],
        g_best_clustering = [(1, 3), (2, 3), (3, 3), (4, 5), (5, 5)],
        g_min_mistakes = 0, g_improved = False, g_iterations = 2,
        g_accepted = [3, 2, 1, 0]\<rparr>"
  by code_simp

lemma five_vertex_rejected_merge:
  "remdups (dict_values [(1, 3), (2, 3), (3, 3), (4, 5), (5, 5 :: int)]) = [3, 5 :: int]"
  "calculate_mistakes
     (CorrelationClustering [1, 2, 3, 4, 5] [(1, 2), (2, 3), (4, 5)] [(1, 4), (2, 5)])
     (relabel [(1, 3), (2, 3), (3, 3), (4, 5), (5, 5)] 3 5) = Inr 2"
  by code_simp+

lemma negative_id_initial:
  "calculate_mistakes (CorrelationClustering [-1, 2] [(-1, 2)] [])
     (singleton_clustering (vertices (CorrelationClustering [-1, 2] [(-1, 2)] []))) = Inl ValueError"
  by code_simp

theorem greedy_rounds_capped_witness:
  "greedy_run remdups
     (CorrelationClustering [1, 2, 3, 4, 5] [(1, 2), (2, 3), (4, 5)] [(1, 4), (2, 5)]) =
     Inr \<lparr>g_clustering = [(1, 3), (2, 3), (3, 3), (4, 5), (5, 5)],
          g_best_clustering = [(1, 3), (2, 3), (3, 3), (4, 5), (5, 5)],
          g_min_mistakes = 0, g_improved = False, g_iterations = 2,
          g_accepted = [3, 2, 1, 0]\<rparr>
   \<and> (2::nat) \<le> length (vertices
          (CorrelationClustering [1, 2, 3, 4, 5] [(1, 2), (2, 3), (4, 5)] [(1, 4), (2, 5)])) *
        length (vertices
          (CorrelationClustering [1, 2, 3, 4, 5] [(1, 2), (2, 3), (4, 5)] [(1, 4), (2, 5)]))
   \<and> calculate_mistakes
        (CorrelationClustering [1, 2, 3, 4, 5] [(1, 2), (2, 3), (4, 5)] [(1, 4), (2, 5)])
        (relabel [(1, 3), (2, 3), (3, 3), (4, 5), (5, 5)] 3 5) = Inr 2
   \<and> greedy_loop remdups
        (CorrelationClustering [1, 2, 3, 4, 5] [(1, 2), (2, 3), (4, 5)] [(1, 4), (2, 5)]) 25
        \<lparr>g_clustering = [(1, 3), (2, 3), (3, 3), (4, 5), (5, 5)],
         g_best_clustering = [(1, 3), (2, 3), (3, 3), (4, 5), (5, 5)],
         g_min_mistakes = 0, g_improved = True, g_iterations = 1,
         g_accepted = [3, 2, 1, 0]\<rparr> =
      Inr \<lparr>g_clustering = [(1, 3), (2, 3), (3, 3), (4, 5), (5, 5)],
           g_best_clustering = [(1, 3), (2, 3), (3, 3), (4, 5), (5, 5)],
           g_min_mistakes = 0, g_improved = False, g_iterations = 2,
           g_accepted = [3, 2, 1, 0]\<rparr>
   \<and> greedy_loop remdups
        (CorrelationClustering [1, 2, 3, 4, 5] [(1, 2), (2, 3), (4, 5)] [(1, 4), (2, 5)]) 25
        \<lparr>g_clustering = [(1, 1), (2, 2), (3, 3), (4, 4), (5, 5)],
         g_best_clustering = [(1, 1), (2, 2), (3, 3), (4, 4), (5, 5)],
         g_min_mistakes = 3, g_improved = True, g_iterations = 0, g_accepted = [3]\<rparr> =
      greedy_loop remdups
        (CorrelationClustering [1, 2, 3, 4, 5] [(1, 2), (2, 3), (4, 5)] [(1, 4), (2, 5)]) 25
        \<lparr>g_clustering = [(1, 3), (2, 3), (3, 3), (4, 5), (5, 5)],
         g_best_clustering = [(1, 3), (2, 3), (3, 3), (4, 5), (5, 5)],
         g_min_mistakes = 0, g_improved = True, g_iterations = 1,
         g_accepted = [3, 2, 1, 0]\<rparr>
   \<and> greedy_run remdups (CorrelationClustering [-1, 2] [(-1, 2)] []) = Inl ValueError"
proof -
  let ?G = "CorrelationClustering [1, 2, 3, 4, 5] [(1, 2), (2, 3), (4, 5)] [(1, 4), (2, 5)]"
  let ?s0 = "\<lparr>g_clustering = [(1, 1), (2, 2), (3, 3), (4, 4), (5, 5)],
             g_best_clustering = [(1, 1), (2, 2), (3, 3), (4, 4), (5, 5)],
             g_min_mistakes = 3, g_improved = True, g_iterations = 0, g_accepted = [3]\<rparr>"
  let ?s1 = "\<lparr>g_clustering = [(1, 3), (2, 3), (3, 3), (4, 5), (5, 5)],
             g_best_clustering = [(1, 3), (2, 3), (3, 3), (4, 5), (5, 5)],
             g_min_mistakes = 0, g_improved = True, g_iterations = 1,
             g_accepted = [3, 2, 1, 0]\<rparr>"
  let ?st = "\<lparr>g_clustering = [(1, 3), (2, 3), (3, 3), (4, 5), (5, 5)],
             g_best_clustering = [(1, 3), (2, 3), (3, 3), (4, 5), (5, 5)],
             g_min_mistakes = 0, g_improved = False, g_iterations = 2,
             g_accepted = [3, 2, 1, 0]\<rparr>"
  have cap: "g_iterations ?st \<le> length (vertices ?G) * length (vertices ?G)"
    using greedy_rounds_capped [of remdups ?G ?st ?s1 25 ?st 3 ValueError] five_vertex_greedy
    by blast
  have "g_improved ?s1 \<and> g_iterations ?s1 < 25 \<and> greedy_round remdups ?G ?s1 = Inr ?st
          \<and> g_accepted ?st = g_accepted ?s1"
    using five_vertex_second_round by simp
  then have stop: "greedy_loop remdups ?G 25 ?s1 = Inr ?st"
    using greedy_rounds_capped [of remdups ?G ?st ?s1 25 ?st 3 ValueError] by blast
  have "g_improved ?s0 \<and> g_iterations ?s0 < 25 \<and> greedy_round remdups ?G ?s0 = Inr ?s1
          \<and> g_accepted ?s1 \<noteq> g_accepted ?s0"
    using five_vertex_first_round by simp
  then have go_on: "greedy_loop remdups ?G 25 ?s0 = greedy_loop remdups ?G 25 ?s1"
    using greedy_rounds_capped [of remdups ?G ?st ?s0 25 ?s1 3 ValueError] by blast
  have "greedy_run remdups (CorrelationClustering [-1, 2] [(-1, 2)] []) = Inl ValueError"
    using greedy_rounds_capped [of remdups "CorrelationClustering [-1, 2] [(-1, 2)] []" _ _ _ _ _
        ValueError] negative_id_initial by blast
  with cap stop go_on five_vertex_greedy five_vertex_rejected_merge(2) show ?thesis by simp
qed

section \<open>Termination of the vertex-pair-merge search\<close>

text \<open>
  Claim C10. \<open>simple_loop\<close> is a total function although the loop has no cap: its
  termination proof uses the measure described in the claim. Every pass adds one to
  the pass counter. A pass that ends with \<^verbatim>\<open>changed\<close> set has strictly lowered
  \<^verbatim>\<open>min_mistakes\<close>, which is non-negative; a pass that ends with the flag unset is
  the last one. Hence a run on a graph whose singleton partition has \<open>m0\<close> mistakes
  returns after at most \<open>m0 + 1\<close> passes; when the initial count raises, the search
  raises the same error.
\<close>

theorem simple_search_terminates:
  "(simple_pass G s = Inr s' \<longrightarrow> s_passes s' = s_passes s + 1)
   \<and> (simple_pass G s = Inr s' \<and> s_changed s' \<longrightarrow>
        0 \<le> s_min_mistakes s' \<and> s_min_mistakes s' < s_min_mistakes s)
   \<and> (simple_pass G s = Inr s' \<and> \<not> s_changed s' \<longrightarrow> simple_loop G s' = Inr s')
   \<and> (calculate_mistakes G (singleton_clustering (vertices G)) = Inr m0 \<longrightarrow>
        (\<exists>st. simple_run G = Inr st \<and> int (s_passes st) \<le> m0 + 1))
   \<and> (calculate_mistakes G (singleton_clustering (vertices G)) = Inl e \<longrightarrow>
        simple_run G = Inl e)"
proof (intro conjI impI)
  assume "simple_pass G s = Inr s'"
  then show "s_passes s' = s_passes s + 1" by (rule simple_pass_passes)
next
  assume a: "simple_pass G s = Inr s' \<and> s_changed s'"
  with simple_pass_cases [of G s s']
  show "0 \<le> s_min_mistakes s'" and "s_min_mistakes s' < s_min_mistakes s" by auto
next
  assume "simple_pass G s = Inr s' \<and> \<not> s_changed s'"
  then show "simple_loop G s' = Inr s'" by (subst simple_loop.simps) simp
next
  assume init: "calculate_mistakes G (singleton_clustering (vertices G)) = Inr m0"
  from simple_run_returns [OF init] obtain st where st: "simple_run G = Inr st" by blast
  with init have l: "simple_loop G
            \<lparr>s_clustering = singleton_clustering (vertices G),
             s_best_clustering = singleton_clustering (vertices G),
             s_min_mistakes = m0, s_changed = True, s_passes = 0,
             s_accepted = [m0]\<rparr> = Inr st"
    by (simp add: simple_run_def Let_def)
  have "0 \<le> m0" using init by (rule calculate_mistakes_nonneg)
  with simple_loop_passes [OF l] have "int (s_passes st) \<le> m0 + 1" by simp
  with st show "\<exists>st. simple_run G = Inr st \<and> int (s_passes st) \<le> m0 + 1" by blast
next
  assume "calculate_mistakes G (singleton_clustering (vertices G)) = Inl e"
  then show "simple_run G = Inl e" by (rule simple_run_raises)
qed

text \<open>
  Two vertices joined by a positive edge: the singleton partition has 1 mistake, the
  first pass merges the two vertices and the second pass changes nothing, so the run
  takes the 2 passes the bound allows.
\<close>

lemma two_vertex_initial:
  "calculate_mistakes (CorrelationClustering [1, 2] [(1, 2)] [])
     (singleton_clustering (vertices (CorrelationClustering [1, 2] [(1, 2)] []))) = Inr 1"
  by code_simp

lemma two_vertex_first_pass:
  "simple_pass (CorrelationClustering [1, 2] [(1, 2)] [])
     \<lparr>s_clustering = [(1, 1), (2, 2)], s_best_clustering = [(1, 1), (2, 2)],
      s_min_mistakes = 1, s_changed = True, s_passes = 0, s_accepted = [1]\<rparr> =
   Inr \<lparr>s_clustering = [(1, 2), (2, 2)], s_best_clustering = [(1, 2), (2, 2)],
        s_min_mistakes = 0, s_changed = True, s_passes = 1, s_accepted = [1, 0]\<rparr>"
  by code_simp

lemma two_vertex_second_pass:
  "simple_pass (CorrelationClustering [1, 2] [(1, 2)] [])
     \<lparr>s_clustering = [(1, 2), (2, 2)], s_best_clustering = [(1, 2), (2, 2)],
      s_min_mistakes = 0, s_changed = True, s_passes = 1, s_accepted = [1, 0]\<rparr> =
   Inr \<lparr>s_clustering = [(1, 2), (2, 2)], s_best_clustering = [(1, 2), (2, 2)],
        s_min_mistakes = 0, s_changed = False, s_passes = 2, s_accepted = [1, 0]\<rparr>"
  by code_simp

lemma two_vertex_simple:
  "simple_run (CorrelationClustering [1, 2] [(1, 2)] []) =
   Inr \<lparr>s_clustering = [(1, 2), (2, 2)], s_best_clustering = [(1, 2), (2, 2)],
        s_min_mistakes = 0, s_changed = False, s_passes = 2, s_accepted = [1, 0]\<rparr>"
  by code_simp

theorem simple_search_terminates_witness:
  "simple_pass (CorrelationClustering [1, 2] [(1, 2)] [])
     \<lparr>s_clustering = [(1, 1), (2, 2)], s_best_clustering = [(1, 1), (2, 2)],
      s_min_mistakes = 1, s_changed = True, s_passes = 0, s_accepted = [1]\<rparr> =
     Inr \<lparr>s_clustering = [(1, 2), (2, 2)], s_best_clustering = [(1, 2), (2, 2)],
          s_min_mistakes = 0, s_changed = True, s_passes = 1, s_accepted = [1, 0]\<rparr>
   \<and> (0::int) < 1
   \<and> simple_loop (CorrelationClustering [1, 2] [(1, 2)] [])
       \<lparr>s_clustering = [(1, 2), (2, 2)], s_best_clustering = [(1, 2), (2, 2)],
        s_min_mistakes = 0, s_changed = False, s_passes = 2, s_accepted = [1, 0]\<rparr> =
     Inr \<lparr>s_clustering = [(1, 2), (2, 2)], s_best_clustering = [(1, 2), (2, 2)],
          s_min_mistakes = 0, s_changed = False, s_passes = 2, s_accepted = [1, 0]\<rparr>
   \<and> (\<exists>st. simple_run (CorrelationClustering [1, 2] [(1, 2)] []) = Inr st
          \<and> s_passes st = 2 \<and> int (s_passes st) \<le> 1 + 1)
   \<and> simple_run (CorrelationClustering [-1, 2] [(-1, 2)] []) = Inl ValueError"
proof -
  let ?G = "CorrelationClustering [1, 2] [(1, 2)] []"
  let ?s0 = "\<lparr>s_clustering = [(1, 1), (2, 2)], s_best_clustering = [(1, 1), (2, 2)],
      s_min_mistakes = 1, s_changed = True, s_passes = 0, s_accepted = [1]\<rparr>"
  let ?s1 = "\<lparr>s_clustering = [(1, 2), (2, 2)], s_best_clustering = [(1, 2), (2, 2)],
      s_min_mistakes = 0, s_changed = True, s_passes = 1, s_accepted = [1, 0]\<rparr>"
  let ?s2 = "\<lparr>s_clustering = [(1, 2), (2, 2)], s_best_clustering = [(1, 2), (2, 2)],
      s_min_mistakes = 0, s_changed = False, s_passes = 2, s_accepted = [1, 0]\<rparr>"
  have "simple_pass ?G ?s0 = Inr ?s1 \<and> s_changed ?s1"
    using two_vertex_first_pass by simp
  then have lower: "s_min_mistakes ?s1 < s_min_mistakes ?s0"
    using simple_search_terminates [of ?G ?s0 ?s1 1 ValueError] by blast
  have "simple_pass ?G ?s1 = Inr ?s2 \<and> \<not> s_changed ?s2"
    using two_vertex_second_pass by simp
  then have stop: "simple_loop ?G ?s2 = Inr ?s2"
    using simple_search_terminates [of ?G ?s1 ?s2 1 ValueError] by blast
  have bound: "\<exists>st. simple_run ?G = Inr st \<and> int (s_passes st) \<le> 1 + 1"
    using simple_search_terminates [of ?G ?s0 ?s1 1 ValueError] two_vertex_initial by blast
  have "simple_run (CorrelationClustering [-1, 2] [(-1, 2)] []) = Inl ValueError"
    using simple_search_terminates [of "CorrelationClustering [-1, 2] [(-1, 2)] []" _ _ _
        ValueError] negative_id_initial by blast
  with lower stop bound two_vertex_first_pass two_vertex_simple show ?thesis by simp
qed

section \<open>Validation\<close>

text \<open>
  Claim C9. For every graph and every clustering, \<open>validate_clustering\<close> is true exactly
  when the set of the keys of the clustering is the set of the graph's vertices, that
  is when the vertices are the keys that have an entry. The labels play no part:
  replacing each label by any function of the vertex and the label does not change
  the answer.
\<close>

theorem validate_clustering_iff:
  "(validate_clustering G c \<longleftrightarrow> set (dict_keys c) = set (vertices G))
   \<and> (validate_clustering G c \<longleftrightarrow> dom (dict_get c) = set (vertices G))
   \<and> validate_clustering G (map (\<lambda>(vertex, label). (vertex, f vertex label)) c)
       = validate_clustering G c"
proof -
  have "dict_get c = map_of c"
    by (rule ext) (simp add: dict_get_def)
  then have "dom (dict_get c) = set (dict_keys c)"
    by (simp add: dict_keys_def dom_map_of_conv_image_fst)
  moreover have "dict_keys (map (\<lambda>(vertex, label). (vertex, f vertex label)) c) = dict_keys c"
    by (induction c) (auto simp: dict_keys_def)
  ultimately show ?thesis by (auto simp: validate_clustering_def Let_def)
qed

section \<open>Edges with a missing endpoint\<close>

text \<open>Starting a counter \<open>d\<close> higher raises the result by \<open>d\<close>.\<close>

lemma count_positive_shift:
  "count_positive c ks m = Inr r \<Longrightarrow> count_positive c ks (m + d) = Inr (r + d)"
proof (induction ks arbitrary: m)
  case Nil
  then show ?case by simp
next
  case (Cons k ks)
  from Cons.prems obtain u v where p: "parse_edge k = Inr (u, v)"
    and r: "count_positive c ks (if dict_get c u \<noteq> dict_get c v then m + 1 else m) = Inr r"
    by (auto split: sum.splits)
  from Cons.IH [OF r] p show ?case by (auto simp: algebra_simps split: if_splits)
qed

lemma count_negative_shift:
  "count_negative c ks m = Inr r \<Longrightarrow> count_negative c ks (m + d) = Inr (r + d)"
proof (induction ks arbitrary: m)
  case Nil
  then show ?case by simp
next
  case (Cons k ks)
  from Cons.prems obtain u v where p: "parse_edge k = Inr (u, v)"
    and r: "count_negative c ks (if dict_get c u = dict_get c v then m + 1 else m) = Inr r"
    by (auto split: sum.splits)
  from Cons.IH [OF r] p show ?case by (auto simp: algebra_simps split: if_splits)
qed

lemma one_missing_ordered:
  assumes "(dict_get c u = None) \<noteq> (dict_get c v = None)"
  shows "dict_get c (min u v) \<noteq> dict_get c (max u v)"
  using assms by (cases "u \<le> v") (auto simp: min_def max_def)

text \<open>
  Claim C4, as amended. Let \<open>(u, v)\<close> be an edge with non-negative endpoints of which
  exactly one has an entry in the clustering, and let the count on a graph be \<open>m\<close>.
  Adding \<open>(u, v)\<close> as a new positive edge makes the count \<open>m + 1\<close>: the edge always
  contributes a mistake. Adding it as a new negative edge leaves the count at \<open>m\<close>:
  the edge never contributes. Nothing is stated for an edge whose two endpoints are
  both missing.
\<close>

theorem missing_endpoint_contribution:
  assumes "0 \<le> u" "0 \<le> v"
    and "calculate_mistakes (CorrelationClustering vs pos neg) c = Inr m"
    and "(dict_get c u = None) \<noteq> (dict_get c v = None)"
  shows "(edge_key u v \<notin> set (map (\<lambda>(a, b). edge_key a b) pos) \<longrightarrow>
            calculate_mistakes (CorrelationClustering vs ((u, v) # pos) neg) c = Inr (m + 1))
       \<and> (edge_key u v \<notin> set (map (\<lambda>(a, b). edge_key a b) neg) \<longrightarrow>
            calculate_mistakes (CorrelationClustering vs pos ((u, v) # neg)) c = Inr m)"
proof (intro conjI impI)
  let ?P = "remdups (map (\<lambda>(a, b). edge_key a b) pos)"
  let ?N = "remdups (map (\<lambda>(a, b). edge_key a b) neg)"
  from assms(3) obtain p where p: "count_positive c ?P 0 = Inr p"
    and n: "count_negative c ?N p = Inr m"
    by (auto simp: calculate_mistakes_def CorrelationClustering_def split: sum.splits)
  have key: "parse_edge (edge_key u v) = Inr (min u v, max u v)"
    using assms(1,2) by (rule parse_edge_key)
  have differ: "dict_get c (min u v) \<noteq> dict_get c (max u v)"
    using assms(4) by (rule one_missing_ordered)
  {
    assume fresh: "edge_key u v \<notin> set (map (\<lambda>(a, b). edge_key a b) pos)"
    have "count_positive c (edge_key u v # ?P) 0 = Inr (p + 1)"
      using count_positive_shift [OF p, of 1] key differ by simp
    moreover have "count_negative c ?N (p + 1) = Inr (m + 1)"
      using count_negative_shift [OF n, of 1] by simp
    ultimately show "calculate_mistakes (CorrelationClustering vs ((u, v) # pos) neg) c = Inr (m + 1)"
      using fresh by (simp add: calculate_mistakes_def CorrelationClustering_def)
  }
  {
    assume fresh: "edge_key u v \<notin> set (map (\<lambda>(a, b). edge_key a b) neg)"
    have "count_negative c (edge_key u v # ?N) p = Inr m"
      using n key differ by simp
    then show "calculate_mistakes (CorrelationClustering vs pos ((u, v) # neg)) c = Inr m"
      using fresh p by (simp add: calculate_mistakes_def CorrelationClustering_def)
  }
qed

lemma one_entry_empty_graph:
  "calculate_mistakes (CorrelationClustering [1, 2] [] []) [(1, 5)] = Inr 0"
  by code_simp

theorem missing_endpoint_contribution_witness:
  "(0::int) \<le> 1 \<and> (0::int) \<le> 2
   \<and> calculate_mistakes (CorrelationClustering [1, 2] [] []) [(1, 5)] = Inr 0
   \<and> dict_get [(1, 5)] (1::int) = Some (5::int) \<and> dict_get [(1::int, 5::int)] 2 = None
   \<and> calculate_mistakes (CorrelationClustering [1, 2] [(1, 2)] []) [(1, 5)] = Inr 1
   \<and> calculate_mistakes (CorrelationClustering [1, 2] [] [(1, 2)]) [(1, 5)] = Inr 0"
  using missing_endpoint_contribution [of 1 2 "[1, 2]" "[]" "[]" "[(1, 5)]" 0]
    one_entry_empty_graph
  by (simp add: dict_get_def)

text \<open>
  Claim C4 as stated includes the case of two missing endpoints, and there it fails:
  both lookups give \<open>None\<close>, which compare equal, so with the empty clustering the
  positive edge (1,2) contributes no mistake and the negative edge (1,2) contributes
  one.
\<close>

theorem missing_endpoint_counterexample:
  "calculate_mistakes (CorrelationClustering [1, 2] [(1, 2)] []) [] = Inr 0
   \<and> calculate_mistakes (CorrelationClustering [1, 2] [] [(1, 2)]) [] = Inr 1"
  by code_simp

section \<open>The keys of the clustering\<close>

text \<open>
  Relabelling keeps the keys, so in every state of the vertex-pair search the keys of
  the clustering are the vertices and \<^verbatim>\<open>clustering.get\<close> finds a label for each
  vertex of a pair.
\<close>

lemma dict_keys_relabel: "dict_keys (relabel c a b) = dict_keys c"
  by (induction c) (auto simp: dict_keys_def relabel_def)

lemma set_dict_keys_dict_set: "set (dict_keys (dict_set d k v)) = insert k (set (dict_keys d))"
  by (induction d k v rule: dict_set.induct) (auto simp: dict_keys_def)

lemma set_dict_keys_singleton: "set (dict_keys (singleton_clustering vs)) = set vs"
proof -
  have "set (dict_keys (foldl (\<lambda>d vertex. dict_set d vertex vertex) d0 vs))
          = set (dict_keys d0) \<union> set vs" for d0
    by (induction vs arbitrary: d0) (auto simp: set_dict_keys_dict_set)
  from this [of "[]"] show ?thesis by (simp add: singleton_clustering_def dict_keys_def)
qed

lemma dict_get_keys: "dict_get c k \<noteq> None \<longleftrightarrow> k \<in> set (dict_keys c)"
  by (simp add: dict_get_def dict_keys_def map_of_eq_None_iff)

lemma simple_step_lookup:
  assumes "set (dict_keys (s_clustering s)) = set (vertices G)"
    and "u \<in> set (vertices G)" "v \<in> set (vertices G)"
  shows "\<exists>a b. dict_get (s_clustering s) u = Some a \<and> dict_get (s_clustering s) v = Some b"
  using assms dict_get_keys [of "s_clustering s" u] dict_get_keys [of "s_clustering s" v]
  by auto

lemma simple_pass_keys:
  assumes "simple_pass G s = Inr s'"
  shows "dict_keys (s_clustering s') = dict_keys (s_clustering s)"
  using assms
proof (rule simple_pass_invariant
    [where P = "\<lambda>t. dict_keys (s_clustering t) = dict_keys (s_clustering s)"])
  fix u v t t'
  assume "dict_keys (s_clustering t) = dict_keys (s_clustering s)" "simple_step G u v t = Inr t'"
  then show "dict_keys (s_clustering t') = dict_keys (s_clustering s)"
    using simple_step_cases [of G u v t t'] by (auto simp: dict_keys_relabel)
qed simp

lemma simple_run_keys:
  assumes "simple_run G = Inr st"
  shows "set (dict_keys (s_clustering st)) = set (vertices G)"
proof -
  from assms obtain m0 where l: "simple_loop G
            \<lparr>s_clustering = singleton_clustering (vertices G),
             s_best_clustering = singleton_clustering (vertices G),
             s_min_mistakes = m0, s_changed = True, s_passes = 0,
             s_accepted = [m0]\<rparr> = Inr st"
    by (auto simp: simple_run_def Let_def split: sum.splits)
  have "dict_keys (s_clustering st) = dict_keys (singleton_clustering (vertices G))"
    using l
    by (rule simple_loop_invariant
        [where P = "\<lambda>t. dict_keys (s_clustering t) = dict_keys (singleton_clustering (vertices G))"])
       (auto dest: simple_pass_keys)
  then show ?thesis by (simp add: set_dict_keys_singleton)
qed

section \<open>Degenerate input\<close>

text \<open>
  When the singleton partition has no mistake, no candidate can have fewer: both
  searches commit nothing and return the singleton partition.
\<close>

lemma greedy_run_zero:
  assumes "calculate_mistakes G (singleton_clustering (vertices G)) = Inr 0"
  shows "greedy_correlation_clustering so G =
    Inr \<lparr>clustering = singleton_clustering (vertices G), mistakes = 0,
         cluster_count = get_cluster_count (singleton_clustering (vertices G))\<rparr>"
proof -
  let ?c = "singleton_clustering (vertices G)"
  let ?P = "\<lambda>t. g_best_clustering t = ?c \<and> g_min_mistakes t = 0"
  from greedy_run_returns [OF assms] obtain st where st: "greedy_run so G = Inr st" by blast
  with assms have l: "greedy_loop so G (length (vertices G) * length (vertices G))
            \<lparr>g_clustering = ?c, g_best_clustering = ?c,
             g_min_mistakes = 0, g_improved = True, g_iterations = 0,
             g_accepted = [0]\<rparr> = Inr st"
    by (simp add: greedy_run_def Let_def)
  have step: "?P t'" if "?P t" "try_merge G a b t = Inr t'" for a b t t'
    using try_merge_cases [OF that(2)] that(1) by auto
  have round: "?P t'" if "?P t" "greedy_round so G t = Inr t'" for t t'
    using that(2)
  proof (rule greedy_round_invariant [where P = ?P])
    show "?P (t\<lparr>g_improved := False, g_iterations := g_iterations t + 1\<rparr>)"
      using that(1) by simp
  qed (rule step)
  have "?P st"
    using l
  proof (rule greedy_loop_invariant [where P = ?P])
    show "?P \<lparr>g_clustering = ?c, g_best_clustering = ?c, g_min_mistakes = 0,
              g_improved = True, g_iterations = 0, g_accepted = [0]\<rparr>"
      by simp
  qed (rule round)
  with st show ?thesis by (simp add: greedy_correlation_clustering_def)
qed

lemma simple_run_zero:
  assumes "calculate_mistakes G (singleton_clustering (vertices G)) = Inr 0"
  shows "simple_greedy_clustering G =
    Inr \<lparr>clustering = singleton_clustering (vertices G), mistakes = 0,
         cluster_count = get_cluster_count (singleton_clustering (vertices G))\<rparr>"
proof -
  let ?c = "singleton_clustering (vertices G)"
  let ?P = "\<lambda>t. s_best_clustering t = ?c \<and> s_min_mistakes t = 0"
  from simple_run_returns [OF assms] obtain st where st: "simple_run G = Inr st" by blast
  with assms have l: "simple_loop G
            \<lparr>s_clustering = ?c, s_best_clustering = ?c,
             s_min_mistakes = 0, s_changed = True, s_passes = 0,
             s_accepted = [0]\<rparr> = Inr st"
    by (simp add: simple_run_def Let_def)
  have step: "?P t'" if "?P t" "simple_step G u v t = Inr t'" for u v t t'
    using simple_step_cases [OF that(2)] that(1) by auto
  have pass: "?P t'" if "?P t" "simple_pass G t = Inr t'" for t t'
    using that(2)
  proof (rule simple_pass_invariant [where P = ?P])
    show "?P (t\<lparr>s_changed := False, s_passes := s_passes t + 1\<rparr>)"
      using that(1) by simp
  qed (rule step)
  have "?P st"
    using l
  proof (rule simple_loop_invariant [where P = ?P])
    show "?P \<lparr>s_clustering = ?c, s_best_clustering = ?c, s_min_mistakes = 0,
              s_changed = True, s_passes = 0, s_accepted = [0]\<rparr>"
      by simp
  qed (rule pass)
  with st show ?thesis by (simp add: simple_greedy_clustering_def)
qed

text \<open>
  A positive self-loop compares a lookup with itself and is never a mistake, so the
  count is 0 on a graph whose only edges are positive self-loops.
\<close>

lemma count_positive_loops:
  "list_all (\<lambda>k. \<exists>u. parse_edge k = Inr (u, u)) ks \<Longrightarrow> count_positive c ks m = Inr m"
  by (induction ks) auto

lemma self_loops_zero:
  assumes "list_all (\<lambda>(u, v). u = v \<and> 0 \<le> u) pos"
  shows "calculate_mistakes (CorrelationClustering vs pos []) c = Inr 0"
proof -
  have "list_all (\<lambda>k. \<exists>u. parse_edge k = Inr (u, u))
          (remdups (map (\<lambda>(u, v). edge_key u v) pos))"
    using assms by (auto simp: list_all_iff parse_edge_key)
  from count_positive_loops [OF this] show ?thesis
    by (simp add: calculate_mistakes_def CorrelationClustering_def)
qed

lemma short_singleton:
  assumes "length vs < 2"
  shows "singleton_clustering vs = map (\<lambda>v. (v, v)) vs"
    and "get_cluster_count (map (\<lambda>v. (v, v)) vs) = int (length vs)"
proof -
  from assms consider "vs = []" | v where "vs = [v]"
    by (cases vs) (auto simp: length_Suc_conv)
  then show "singleton_clustering vs = map (\<lambda>v. (v, v)) vs"
    by cases (simp_all add: singleton_clustering_def)
  show "get_cluster_count (map (\<lambda>v. (v, v)) vs) = int (length vs)"
    using assms by (cases vs) (auto simp: get_cluster_count_def dict_values_def)
qed

text \<open>
  Claim C8, as amended. For every graph with fewer than 2 vertices that has no negative
  edge and whose positive edges, if any, are self-loops on non-negative identifiers
  (in particular for every graph with fewer than 2 vertices and no edge), both
  searches return without error the singleton clustering, each vertex labelled by
  itself, with a \<^verbatim>\<open>mistakes\<close> field of 0, for every iteration order of the label set.
\<close>

theorem degenerate_input:
  assumes "length vs < 2" and "list_all (\<lambda>(u, v). u = v \<and> 0 \<le> u) pos"
  shows "greedy_correlation_clustering set_order (CorrelationClustering vs pos []) =
           Inr \<lparr>clustering = map (\<lambda>v. (v, v)) vs, mistakes = 0, cluster_count = int (length vs)\<rparr>
       \<and> simple_greedy_clustering (CorrelationClustering vs pos []) =
           Inr \<lparr>clustering = map (\<lambda>v. (v, v)) vs, mistakes = 0, cluster_count = int (length vs)\<rparr>"
proof -
  let ?G = "CorrelationClustering vs pos []"
  have v: "vertices ?G = vs" by (simp add: CorrelationClustering_def)
  have "calculate_mistakes ?G (singleton_clustering (vertices ?G)) = Inr 0"
    using assms(2) by (rule self_loops_zero)
  from greedy_run_zero [OF this, of set_order] simple_run_zero [OF this]
  show ?thesis by (simp add: v short_singleton [OF assms(1)])
qed

theorem degenerate_input_witness:
  "length [7::int] < 2 \<and> list_all (\<lambda>(u, v). u = v \<and> 0 \<le> u) [(7::int, 7::int)]
   \<and> greedy_correlation_clustering remdups (CorrelationClustering [7] [(7, 7)] []) =
        Inr \<lparr>clustering = [(7, 7)], mistakes = 0, cluster_count = 1\<rparr>
   \<and> simple_greedy_clustering (CorrelationClustering [7] [(7, 7)] []) =
        Inr \<lparr>clustering = [(7, 7)], mistakes = 0, cluster_count = 1\<rparr>"
  using degenerate_input [of "[7]" "[(7, 7)]" remdups] by simp

text \<open>
  Claim C8 as stated only excludes edges between distinct vertices. A negative
  self-loop is not such an edge, and it is a mistake in every clustering: on the
  one-vertex graph with the negative edge (1,1) both searches return the singleton
  clustering with a \<^verbatim>\<open>mistakes\<close> field of 1.
\<close>

theorem degenerate_input_counterexample:
  "greedy_correlation_clustering remdups (CorrelationClustering [1] [] [(1, 1)]) =
     Inr \<lparr>clustering = [(1, 1)], mistakes = 1, cluster_count = 1\<rparr>
   \<and> simple_greedy_clustering (CorrelationClustering [1] [] [(1, 1)]) =
     Inr \<lparr>clustering = [(1, 1)], mistakes = 1, cluster_count = 1\<rparr>"
  by code_simp

section \<open>Rounding: which vertices join a new cluster\<close>

text \<open>A lookup after \<^verbatim>\<open>d[k] = v\<close>, and the effect of the inner loop on every lookup.\<close>

lemma dict_get_dict_set:
  "dict_get (dict_set d k v) k' = (if k' = k then Some v else dict_get d k')"
  by (induction d k v rule: dict_set.induct) (auto simp: dict_get_def)

lemma scan_fold:
  "dict_get (foldl (scan_other sol vertex cid) labels ws) w =
     (if w \<in> set ws \<and> w \<noteq> vertex \<and> z_value sol vertex w \<noteq> - 1 \<and> z_value sol vertex w < 1 / 2
      then Some cid else dict_get labels w)"
proof (induction ws arbitrary: labels)
  case Nil
  then show ?case by simp
next
  case (Cons x ws)
  show ?case
    by (simp add: Cons.IH) (auto simp: scan_other_def Let_def dict_get_dict_set)
qed

lemma z_value_present:
  assumes "\<And>k. sol k \<noteq> Some (- 1)"
  shows "(z_value sol vertex w \<noteq> - 1 \<and> z_value sol vertex w < 1 / 2) \<longleftrightarrow>
         (\<exists>z. (sol (variable_name vertex w) = Some z
                \<or> (sol (variable_name vertex w) = None \<and> sol (variable_name w vertex) = Some z))
              \<and> z < 1 / 2)"
  using assms [of "variable_name vertex w"] assms [of "variable_name w vertex"]
  by (auto simp: z_value_def split: option.splits)

text \<open>
  Claim C3, as amended. A vertex that already has a cluster is skipped by the outer
  loop. A vertex without a cluster opens a new cluster under the current sequential
  id, and the next id is one more. The inner loop then scans every other vertex of the
  vertex list, whether it has a cluster already or not: after the visit, the label of
  a vertex \<open>w\<close> is the new id exactly when \<open>w\<close> is the opening vertex or \<open>w\<close> is a
  vertex of the list whose edge value is different from \<open>-1\<close> and below \<open>1/2\<close>;
  every other lookup is as before. When no value of the solution is the sentinel
  \<open>-1\<close>, that condition says that the edge variable is present (under the name
  \<^verbatim>\<open>z_vertex_w\<close>, or else under \<^verbatim>\<open>z_w_vertex\<close>) with a value below \<open>1/2\<close>.
\<close>

theorem visit_scans_every_other_vertex:
  "(dict_get labels vertex \<noteq> None \<longrightarrow>
      visit sol vs (labels, cluster_id) vertex = (labels, cluster_id))
   \<and> (dict_get labels vertex = None \<longrightarrow>
        snd (visit sol vs (labels, cluster_id) vertex) = cluster_id + 1
        \<and> dict_get (fst (visit sol vs (labels, cluster_id) vertex)) w =
            (if w = vertex \<or> (w \<in> set vs \<and> z_value sol vertex w \<noteq> - 1
                               \<and> z_value sol vertex w < 1 / 2)
             then Some cluster_id else dict_get labels w))
   \<and> ((\<forall>k. sol k \<noteq> Some (- 1)) \<longrightarrow>
        ((z_value sol vertex w \<noteq> - 1 \<and> z_value sol vertex w < 1 / 2) \<longleftrightarrow>
         (\<exists>z. (sol (variable_name vertex w) = Some z
                \<or> (sol (variable_name vertex w) = None \<and> sol (variable_name w vertex) = Some z))
              \<and> z < 1 / 2)))"
proof (intro conjI impI)
  assume "dict_get labels vertex \<noteq> None"
  then show "visit sol vs (labels, cluster_id) vertex = (labels, cluster_id)"
    by (simp add: visit_def)
next
  assume "dict_get labels vertex = None"
  then show "snd (visit sol vs (labels, cluster_id) vertex) = cluster_id + 1"
    by (simp add: visit_def)
next
  assume "dict_get labels vertex = None"
  then show "dict_get (fst (visit sol vs (labels, cluster_id) vertex)) w =
            (if w = vertex \<or> (w \<in> set vs \<and> z_value sol vertex w \<noteq> - 1
                               \<and> z_value sol vertex w < 1 / 2)
             then Some cluster_id else dict_get labels w)"
    by (simp add: visit_def scan_fold dict_get_dict_set)
next
  assume "\<forall>k. sol k \<noteq> Some (- 1)"
  then show "(z_value sol vertex w \<noteq> - 1 \<and> z_value sol vertex w < 1 / 2) \<longleftrightarrow>
         (\<exists>z. (sol (variable_name vertex w) = Some z
                \<or> (sol (variable_name vertex w) = None \<and> sol (variable_name w vertex) = Some z))
              \<and> z < 1 / 2)"
    by (intro z_value_present) simp
qed

text \<open>
  The path 1 - 2 - 3 with both edge variables at 0 and no variable for the pair (1,3):
  vertex 1 opens cluster 0 and takes vertex 2; vertex 2 is skipped; vertex 3 opens
  cluster 1 and takes vertex 2 out of cluster 0, while vertex 1 stays.
\<close>

lemma rounding_example_names:
  "variable_name 3 1 = ''z_3_1''" "variable_name 1 3 = ''z_1_3''"
  "variable_name 3 2 = ''z_3_2''" "variable_name 2 3 = ''z_2_3''"
  by code_simp+

lemma rounding_example_first:
  "foldl (visit [''z_1_2'' \<mapsto> 0, ''z_2_3'' \<mapsto> 0] [1, 2, 3]) ([], 0) [1, 2] =
     ([(1, 0), (2, 0)], 1)"
  by code_simp

theorem visit_scans_every_other_vertex_witness:
  "dict_get [(1, 0), (2, 0)] (2::int) = Some (0::int)
   \<and> visit [''z_1_2'' \<mapsto> 0, ''z_2_3'' \<mapsto> 0] [1, 2, 3] ([(1, 0), (2, 0)], 1) 2 = ([(1, 0), (2, 0)], 1)
   \<and> dict_get [(1, 0), (2, 0)] (3::int) = (None :: int option)
   \<and> snd (visit [''z_1_2'' \<mapsto> 0, ''z_2_3'' \<mapsto> 0] [1, 2, 3] ([(1, 0), (2, 0)], 1) 3) = 2
   \<and> dict_get (fst (visit [''z_1_2'' \<mapsto> 0, ''z_2_3'' \<mapsto> 0] [1, 2, 3] ([(1, 0), (2, 0)], 1) 3)) 2
        = Some 1
   \<and> dict_get (fst (visit [''z_1_2'' \<mapsto> 0, ''z_2_3'' \<mapsto> 0] [1, 2, 3] ([(1, 0), (2, 0)], 1) 3)) 1
        = Some 0
   \<and> z_value [''z_1_2'' \<mapsto> 0, ''z_2_3'' \<mapsto> 0] 3 2 = 0
   \<and> z_value [''z_1_2'' \<mapsto> 0, ''z_2_3'' \<mapsto> 0] 3 1 = - 1"
proof -
  let ?sol = "[''z_1_2'' \<mapsto> 0, ''z_2_3'' \<mapsto> (0::real)]"
  let ?labels = "[(1, 0), (2, 0)] :: (int, int) dict"
  have z32: "z_value ?sol 3 2 = 0" and z31: "z_value ?sol 3 1 = - 1"
    by (simp_all add: z_value_def rounding_example_names)
  have a2: "dict_get ?labels 2 \<noteq> None" and a3: "dict_get ?labels 3 = None"
    and l1: "dict_get ?labels 1 = Some 0"
    by (simp_all add: dict_get_def)
  have skip: "visit ?sol [1, 2, 3] (?labels, 1) 2 = (?labels, 1)"
    using visit_scans_every_other_vertex [of ?labels 2 ?sol "[1, 2, 3]" 1] a2 by blast
  have next_id: "snd (visit ?sol [1, 2, 3] (?labels, 1) 3) = 2"
    using visit_scans_every_other_vertex [of ?labels 3 ?sol "[1, 2, 3]" 1] a3 by simp
  have moved: "dict_get (fst (visit ?sol [1, 2, 3] (?labels, 1) 3)) 2 = Some 1"
    using visit_scans_every_other_vertex [of ?labels 3 ?sol "[1, 2, 3]" 1 2] a3 z32 by simp
  have kept: "dict_get (fst (visit ?sol [1, 2, 3] (?labels, 1) 3)) 1 = Some 0"
    using visit_scans_every_other_vertex [of ?labels 3 ?sol "[1, 2, 3]" 1 1] a3 z31 l1 by simp
  from skip next_id moved kept z32 z31 show ?thesis by (simp add: dict_get_def)
qed

text \<open>
  Claim C3 as stated says that a vertex already assigned to an earlier cluster is never
  reassigned. On the example, after the visits of the vertices 1 and 2 the vertex 2 is
  in cluster 0 and the vertex 3 has no cluster; the result of \<open>interpret_solution\<close>
  has the vertex 2 in cluster 1, the cluster opened by the vertex 3.
\<close>

theorem interpret_solution_reassigns_counterexample:
  "dict_get (fst (foldl (visit [''z_1_2'' \<mapsto> 0, ''z_2_3'' \<mapsto> 0] [1, 2, 3]) ([], 0) [1, 2])) 2
      = Some 0
   \<and> dict_get (fst (foldl (visit [''z_1_2'' \<mapsto> 0, ''z_2_3'' \<mapsto> 0] [1, 2, 3]) ([], 0) [1, 2])) 3
      = None
   \<and> interpret_solution (CorrelationClusteringLP [1, 2, 3] [(1, 2), (2, 3)] [])
        [''z_1_2'' \<mapsto> 0, ''z_2_3'' \<mapsto> 0] = [(1, 0), (2, 1), (3, 1)]"
  by code_simp

section \<open>Triangle constraints and the variable of index 0\<close>

text \<open>
  Claim C2 says that a triple of vertices whose three edges all have a variable gets
  its three rows. The lookup of an index is written
  \<^verbatim>\<open>edge_variable_index.get(key) or edge_variable_index.get(reversed_key, -1)\<close>, and
  the index 0, the one of the first positive edge, is false for \<^verbatim>\<open>or\<close>. On the
  triangle 1, 2, 3 with the positive edges (1,2), (1,3), (2,3) all three edges have a
  variable, with the indices 0, 1, 2, yet the lookup of the edge (1,2) gives \<open>-1\<close> and
  \<open>formulate_lp\<close> returns no constraint at all.
\<close>

theorem formulate_lp_drops_first_edge_triangle:
  "formulate_lp (CorrelationClusteringLP [1, 2, 3] [(1, 2), (1, 3), (2, 3)] []) =
     Inr \<lparr>objective_coefficients = [1, 1, 1], constraint_coefficients = [],
          rhs = [], constraint_types = [],
          variable_bounds =
            [\<lparr>bound_min = 0, bound_max = 1\<rparr>, \<lparr>bound_min = 0, bound_max = 1\<rparr>,
             \<lparr>bound_min = 0, bound_max = 1\<rparr>],
          variable_names = [''z_1_2'', ''z_1_3'', ''z_2_3'']\<rparr>
   \<and> edge_variable_index
         (lp_variables (CorrelationClusteringLP [1, 2, 3] [(1, 2), (1, 3), (2, 3)] [])) =
       [(''1_2'', 0), (''1_3'', 1), (''2_3'', 2)]
   \<and> edge_index
         (edge_variable_index
            (lp_variables (CorrelationClusteringLP [1, 2, 3] [(1, 2), (1, 3), (2, 3)] [])))
         1 2 = - 1"
  by code_simp

text \<open>
  The same triangle is handled as the claim says as soon as none of its edges is the
  first variable: with the edge (1,4) listed first, the three rows of the triangle
  1, 2, 3 are emitted.
\<close>

lemma formulate_lp_later_triangle:
  "formulate_lp (CorrelationClusteringLP [1, 2, 3, 4] [(1, 4), (1, 2), (1, 3), (2, 3)] []) =
     Inr \<lparr>objective_coefficients = [1, 1, 1, 1],
          constraint_coefficients = [[0, 1, - 1, - 1], [0, - 1, 1, - 1], [0, - 1, - 1, 1]],
          rhs = [0, 0, 0], constraint_types = [''<='', ''<='', ''<=''],
          variable_bounds =
            [\<lparr>bound_min = 0, bound_max = 1\<rparr>, \<lparr>bound_min = 0, bound_max = 1\<rparr>,
             \<lparr>bound_min = 0, bound_max = 1\<rparr>, \<lparr>bound_min = 0, bound_max = 1\<rparr>],
          variable_names = [''z_1_4'', ''z_1_2'', ''z_1_3'', ''z_2_3'']\<rparr>"
  by code_simp

section \<open>The variables of the LP formulation\<close>

text \<open>
  Every index stored in \<^verbatim>\<open>edge_variable_index\<close> is a position of the variable
  lists, so an index found for an edge is \<open>-1\<close> or in range, the assignments to a
  constraint row never raise \<^verbatim>\<open>IndexError\<close>, and \<open>formulate_lp\<close> always returns.
\<close>

lemma dict_values_dict_set:
  "set (dict_values (dict_set d k v)) \<subseteq> insert v (set (dict_values d))"
  by (induction d k v rule: dict_set.induct) (auto simp: dict_values_def)

lemma dict_get_value: "dict_get d k = Some v \<Longrightarrow> v \<in> set (dict_values d)"
  by (auto simp: dict_get_def dict_values_def dest!: map_of_SomeD intro: rev_image_eqI)

lemma add_variables_fold:
  "objective_coefficients (foldl (add_variable c) s es) =
     objective_coefficients s @ replicate (length es) c
   \<and> variable_bounds (foldl (add_variable c) s es) =
     variable_bounds s @ replicate (length es) \<lparr>bound_min = 0, bound_max = 1\<rparr>
   \<and> variable_names (foldl (add_variable c) s es) =
     variable_names s @ map (\<lambda>(u, v). variable_name u v) es
   \<and> variable_index (foldl (add_variable c) s es) = variable_index s + int (length es)
   \<and> constraint_coefficients (foldl (add_variable c) s es) = constraint_coefficients s
   \<and> rhs (foldl (add_variable c) s es) = rhs s
   \<and> constraint_types (foldl (add_variable c) s es) = constraint_types s"
proof (induction es arbitrary: s)
  case Nil
  then show ?case by simp
next
  case (Cons e es)
  obtain u v where e: "e = (u, v)" by (cases e)
  show ?case
    by (simp add: Cons.IH) (simp add: add_variable_def e replicate_app_Cons_same)
qed

lemma add_variables_indices:
  assumes "\<forall>i\<in>set (dict_values (edge_variable_index s)). 0 \<le> i \<and> i < variable_index s"
    and "0 \<le> variable_index s"
  shows "\<forall>i\<in>set (dict_values (edge_variable_index (foldl (add_variable c) s es))).
           0 \<le> i \<and> i < variable_index s + int (length es)"
  using assms
proof (induction es arbitrary: s)
  case Nil
  then show ?case by simp
next
  case (Cons e es)
  obtain u v where e: "e = (u, v)" by (cases e)
  let ?s = "add_variable c s e"
  have vi: "variable_index ?s = variable_index s + 1" by (simp add: add_variable_def e)
  have "\<forall>i\<in>set (dict_values (edge_variable_index ?s)). 0 \<le> i \<and> i < variable_index ?s"
  proof
    fix i assume "i \<in> set (dict_values (edge_variable_index ?s))"
    then have "i = variable_index s \<or> i \<in> set (dict_values (edge_variable_index s))"
      using dict_values_dict_set [of "edge_variable_index s" "pair_key u v" "variable_index s"]
      by (auto simp: add_variable_def e)
    then show "0 \<le> i \<and> i < variable_index ?s"
      using Cons.prems vi by auto
  qed
  moreover have "0 \<le> variable_index ?s" using Cons.prems(2) vi by simp
  ultimately have "\<forall>i\<in>set (dict_values (edge_variable_index (foldl (add_variable c) ?s es))).
           0 \<le> i \<and> i < variable_index ?s + int (length es)"
    by (rule Cons.IH)
  then show ?case by (simp add: vi add.assoc)
qed

lemma edge_index_range:
  assumes "\<forall>i\<in>set (dict_values evi). 0 \<le> i \<and> i < n"
  shows "edge_index evi a b = - 1 \<or> (0 \<le> edge_index evi a b \<and> edge_index evi a b < n)"
proof -
  have d: "dict_get_default evi k (- 1) = - 1
           \<or> (0 \<le> dict_get_default evi k (- 1) \<and> dict_get_default evi k (- 1) < n)" for k
    using assms dict_get_value [of evi k]
    by (auto simp: dict_get_default_def split: option.splits)
  show ?thesis
  proof (cases "dict_get evi (pair_key a b)")
    case None
    then show ?thesis using d [of "pair_key b a"] by (simp add: edge_index_def py_or_def)
  next
    case (Some i)
    then have "0 \<le> i \<and> i < n" using assms dict_get_value [of evi "pair_key a b" i] by simp
    then show ?thesis using Some d [of "pair_key b a"] by (simp add: edge_index_def py_or_def)
  qed
qed

lemma list_set_in_range:
  "0 \<le> i \<Longrightarrow> i < int (length xs) \<Longrightarrow> list_set xs i v = Inr (xs[nat i := v])"
  by (simp add: list_set_def)

lemma constraint_row_in_range:
  assumes "0 \<le> a" "a < n" "0 \<le> b" "b < n" "0 \<le> c" "c < n"
  shows "\<exists>row. constraint_row n [(a, x), (b, y), (c, z)] = Inr row \<and> length row = nat n"
  using assms by (simp add: constraint_row_def list_set_in_range)

lemma triangle_ok:
  assumes ok: "constraints_ok s0 s"
    and range: "\<forall>i\<in>set (dict_values (edge_variable_index s0)). 0 \<le> i \<and> i < variable_index s0"
  shows "\<exists>s'. triangle vs i j k s = Inr s' \<and> constraints_ok s0 s'"
proof -
  let ?evi = "edge_variable_index s" and ?n = "variable_index s"
  let ?ij = "edge_index ?evi (vs ! i) (vs ! j)"
  let ?ik = "edge_index ?evi (vs ! i) (vs ! k)"
  let ?jk = "edge_index ?evi (vs ! j) (vs ! k)"
  from ok have same: "?evi = edge_variable_index s0" "?n = variable_index s0"
    by (simp_all add: constraints_ok_def)
  show ?thesis
  proof (cases "?ij = - 1 \<or> ?ik = - 1 \<or> ?jk = - 1")
    case True
    then have "triangle vs i j k s = Inr s" by (auto simp: triangle_def Let_def)
    with ok show ?thesis by simp
  next
    case False
    with range same
    have r: "0 \<le> ?ij" "?ij < ?n" "0 \<le> ?ik" "?ik < ?n" "0 \<le> ?jk" "?jk < ?n"
      using edge_index_range [of ?evi ?n "vs ! i" "vs ! j"]
        edge_index_range [of ?evi ?n "vs ! i" "vs ! k"]
        edge_index_range [of ?evi ?n "vs ! j" "vs ! k"]
      by auto
    from constraint_row_in_range [OF r] obtain c1 where
      c1: "constraint_row ?n [(?ij, 1), (?ik, - 1), (?jk, - 1)] = Inr c1" "length c1 = nat ?n"
      by blast
    from constraint_row_in_range [OF r] obtain c2 where
      c2: "constraint_row ?n [(?ij, - 1), (?ik, 1), (?jk, - 1)] = Inr c2" "length c2 = nat ?n"
      by blast
    from constraint_row_in_range [OF r] obtain c3 where
      c3: "constraint_row ?n [(?ij, - 1), (?ik, - 1), (?jk, 1)] = Inr c3" "length c3 = nat ?n"
      by blast
    let ?s' = "s\<lparr>constraint_coefficients := constraint_coefficients s @ [c1, c2, c3],
                  rhs := rhs s @ [0, 0, 0],
                  constraint_types := constraint_types s @ [''<='', ''<='', ''<='']\<rparr>"
    have "triangle vs i j k s = Inr ?s'"
      using False c1(1) c2(1) c3(1) by (simp add: triangle_def Let_def)
    moreover have "constraints_ok s0 ?s'"
      using ok c1(2) c2(2) c3(2) same(2) by (simp add: constraints_ok_def)
    ultimately show ?thesis by blast
  qed
qed

lemma triple_loop_ok:
  assumes ok: "constraints_ok s0 s"
    and range: "\<forall>i\<in>set (dict_values (edge_variable_index s0)). 0 \<le> i \<and> i < variable_index s0"
  shows "\<exists>s'. for_each (\<lambda>i. for_each (\<lambda>j. for_each (\<lambda>k. triangle vs i j k) (ks j)) (js i)) ps s
               = Inr s' \<and> constraints_ok s0 s'"
proof -
  have l3: "\<exists>t'. for_each (\<lambda>k. triangle vs i j k) xs t = Inr t' \<and> constraints_ok s0 t'"
    if "constraints_ok s0 t" for i j xs t
    using that by (rule for_each_total) (rule triangle_ok [OF _ range])
  have l2: "\<exists>t'. for_each (\<lambda>j. for_each (\<lambda>k. triangle vs i j k) (ks j)) xs t = Inr t'
                \<and> constraints_ok s0 t'"
    if "constraints_ok s0 t" for i xs t
    using that by (rule for_each_total) (rule l3)
  show ?thesis using ok by (rule for_each_total) (rule l2)
qed

lemma lp_variables_fields:
  "objective_coefficients (lp_variables G) =
     replicate (length (lp_positive_edges G)) 1 @ replicate (length (lp_negative_edges G)) (- 1)"
  "variable_bounds (lp_variables G) =
     replicate (length (lp_positive_edges G) + length (lp_negative_edges G))
       \<lparr>bound_min = 0, bound_max = 1\<rparr>"
  "variable_names (lp_variables G) =
     map (\<lambda>(u, v). variable_name u v) (lp_positive_edges G @ lp_negative_edges G)"
  "variable_index (lp_variables G) =
     int (length (lp_positive_edges G) + length (lp_negative_edges G))"
  "constraint_coefficients (lp_variables G) = []" "rhs (lp_variables G) = []"
  "constraint_types (lp_variables G) = []"
  by (simp_all add: lp_variables_def add_variables_fold replicate_add)

lemma lp_variables_range:
  "\<forall>i\<in>set (dict_values (edge_variable_index (lp_variables G))).
      0 \<le> i \<and> i < variable_index (lp_variables G)"
proof -
  let ?s0 = "\<lparr>objective_coefficients = [], constraint_coefficients = [], rhs = [],
           constraint_types = [], variable_bounds = [], variable_names = [],
           edge_variable_index = [], variable_index = 0\<rparr>"
  let ?s1 = "foldl (add_variable 1) ?s0 (lp_positive_edges G)"
  have "\<forall>i\<in>set (dict_values (edge_variable_index ?s1)).
          0 \<le> i \<and> i < variable_index ?s0 + int (length (lp_positive_edges G))"
    by (rule add_variables_indices) (simp_all add: dict_values_def)
  then have r1: "\<forall>i\<in>set (dict_values (edge_variable_index ?s1)). 0 \<le> i \<and> i < variable_index ?s1"
    by (simp add: add_variables_fold)
  have "\<forall>i\<in>set (dict_values (edge_variable_index
            (foldl (add_variable (- 1)) ?s1 (lp_negative_edges G)))).
          0 \<le> i \<and> i < variable_index ?s1 + int (length (lp_negative_edges G))"
    using r1 by (rule add_variables_indices) (simp add: add_variables_fold)
  then show ?thesis by (simp add: lp_variables_def add_variables_fold)
qed

text \<open>
  Claim C7. For duplicate-free and disjoint edge lists, \<open>formulate_lp\<close> returns a
  formulation with exactly \<open>|E+| + |E-|\<close> variables, named after the positive edges and
  then the negative edges in the order of the lists. The objective coefficient is 1
  for each positive-edge variable and -1 for each negative-edge variable, every
  variable has the bounds 0 and 1, every right-hand side is 0 and every constraint
  type is \<^verbatim>\<open><=\<close>; the three constraint lists have the same length and each row has
  one column per variable.
\<close>

theorem formulate_lp_variables:
  assumes "distinct pos" "distinct neg" "set pos \<inter> set neg = {}"
  shows "\<exists>f. formulate_lp (CorrelationClusteringLP vs pos neg) = Inr f
     \<and> length (variable_names f) = card (set pos) + card (set neg)
     \<and> length (variable_names f) = card (set pos \<union> set neg)
     \<and> variable_names f = map (\<lambda>(u, v). variable_name u v) (pos @ neg)
     \<and> objective_coefficients f = replicate (length pos) 1 @ replicate (length neg) (- 1)
     \<and> variable_bounds f = replicate (length pos + length neg) \<lparr>bound_min = 0, bound_max = 1\<rparr>
     \<and> list_all (\<lambda>r. r = 0) (rhs f)
     \<and> list_all (\<lambda>t. t = ''<='') (constraint_types f)
     \<and> length (rhs f) = length (constraint_coefficients f)
     \<and> length (constraint_types f) = length (constraint_coefficients f)
     \<and> list_all (\<lambda>row. length row = length pos + length neg) (constraint_coefficients f)"
proof -
  let ?G = "CorrelationClusteringLP vs pos neg"
  let ?s0 = "lp_variables ?G"
  have G: "lp_positive_edges ?G = pos" "lp_negative_edges ?G = neg" "lp_vertices ?G = vs"
    by (simp_all add: CorrelationClusteringLP_def)
  have "constraints_ok ?s0 ?s0"
    by (simp add: constraints_ok_def lp_variables_fields)
  from triple_loop_ok [OF this lp_variables_range, where vs = vs
      and ks = "\<lambda>j. [j + 1 ..< length vs]" and js = "\<lambda>i. [i + 1 ..< length vs]"
      and ps = "[0 ..< length vs]"]
  obtain s where
    run: "for_each (\<lambda>i. for_each (\<lambda>j. for_each (\<lambda>k. triangle vs i j k) [j + 1 ..< length vs])
             [i + 1 ..< length vs]) [0 ..< length vs] ?s0 = Inr s"
    and ok: "constraints_ok ?s0 s"
    by blast
  have card: "card (set pos) = length pos" "card (set neg) = length neg"
    "card (set pos \<union> set neg) = length pos + length neg"
    using assms by (simp_all add: distinct_card card_Un_disjoint)
  let ?f = "\<lparr>objective_coefficients = objective_coefficients s,
              constraint_coefficients = constraint_coefficients s, rhs = rhs s,
              constraint_types = constraint_types s, variable_bounds = variable_bounds s,
              variable_names = variable_names s\<rparr>"
  have "formulate_lp ?G = Inr ?f"
    using run by (simp add: formulate_lp_def Let_def G)
  moreover have "variable_names ?f = map (\<lambda>(u, v). variable_name u v) (pos @ neg)"
    "objective_coefficients ?f = replicate (length pos) 1 @ replicate (length neg) (- 1)"
    "variable_bounds ?f = replicate (length pos + length neg) \<lparr>bound_min = 0, bound_max = 1\<rparr>"
    "list_all (\<lambda>r. r = 0) (rhs ?f)" "list_all (\<lambda>t. t = ''<='') (constraint_types ?f)"
    "length (rhs ?f) = length (constraint_coefficients ?f)"
    "length (constraint_types ?f) = length (constraint_coefficients ?f)"
    "list_all (\<lambda>row. length row = length pos + length neg) (constraint_coefficients ?f)"
    using ok by (simp_all add: constraints_ok_def lp_variables_fields G nat_int_add)
  ultimately show ?thesis using card by (intro exI [of _ ?f]) simp
qed

text \<open>
  Four vertices, the positive edges (1,4), (1,2), (1,3) and the negative edge (2,3):
  four variables and the three rows of the triangle 1, 2, 3.
\<close>

lemma lp_example:
  "formulate_lp (CorrelationClusteringLP [1, 2, 3, 4] [(1, 4), (1, 2), (1, 3)] [(2, 3)]) =
     Inr \<lparr>objective_coefficients = [1, 1, 1, - 1],
          constraint_coefficients = [[0, 1, - 1, - 1], [0, - 1, 1, - 1], [0, - 1, - 1, 1]],
          rhs = [0, 0, 0], constraint_types = [''<='', ''<='', ''<=''],
          variable_bounds =
            [\<lparr>bound_min = 0, bound_max = 1\<rparr>, \<lparr>bound_min = 0, bound_max = 1\<rparr>,
             \<lparr>bound_min = 0, bound_max = 1\<rparr>, \<lparr>bound_min = 0, bound_max = 1\<rparr>],
          variable_names = [''z_1_4'', ''z_1_2'', ''z_1_3'', ''z_2_3'']\<rparr>"
  by code_simp

theorem formulate_lp_variables_witness:
  "distinct [(1::int, 4::int), (1, 2), (1, 3)] \<and> distinct [(2::int, 3::int)]
   \<and> set [(1::int, 4::int), (1, 2), (1, 3)] \<inter> set [(2, 3)] = {}
   \<and> (\<exists>f. formulate_lp (CorrelationClusteringLP [1, 2, 3, 4] [(1, 4), (1, 2), (1, 3)] [(2, 3)])
            = Inr f
        \<and> length (variable_names f) = 4
        \<and> length (variable_names f)
            = card (set [(1::int, 4::int), (1, 2), (1, 3)]) + card (set [(2::int, 3::int)])
        \<and> objective_coefficients f = [1, 1, 1, - 1]
        \<and> rhs f = [0, 0, 0]
        \<and> constraint_types f = [''<='', ''<='', ''<=''])"
proof -
  have h: "distinct [(1::int, 4::int), (1, 2), (1, 3)]" "distinct [(2::int, 3::int)]"
    "set [(1::int, 4::int), (1, 2), (1, 3)] \<inter> set [(2, 3)] = {}"
    by simp_all
  from formulate_lp_variables [OF h, of "[1, 2, 3, 4]"] obtain f where
    f: "formulate_lp (CorrelationClusteringLP [1, 2, 3, 4] [(1, 4), (1, 2), (1, 3)] [(2, 3)]) = Inr f"
    and n: "length (variable_names f)
            = card (set [(1::int, 4::int), (1, 2), (1, 3)]) + card (set [(2::int, 3::int)])"
    by blast
  from f have "f = \<lparr>objective_coefficients = [1, 1, 1, - 1],
          constraint_coefficients = [[0, 1, - 1, - 1], [0, - 1, 1, - 1], [0, - 1, - 1, 1]],
          rhs = [0, 0, 0], constraint_types = [''<='', ''<='', ''<=''],
          variable_bounds =
            [\<lparr>bound_min = 0, bound_max = 1\<rparr>, \<lparr>bound_min = 0, bound_max = 1\<rparr>,
             \<lparr>bound_min = 0, bound_max = 1\<rparr>, \<lparr>bound_min = 0, bound_max = 1\<rparr>],
          variable_names = [''z_1_4'', ''z_1_2'', ''z_1_3'', ''z_2_3'']\<rparr>"
    by (simp add: lp_example)
  with f n h show ?thesis by simp
qed

end
